theory Spec2Isabelle
  imports Main "HOL-Library.Word"
begin

unbundle bit_operations_syntax

section \<open>Autostart entries of the session properties capplet (capplet/gsp-app.c)\<close>

text \<open>
  The development embeds \<^verbatim>\<open>src/capplet/gsp-app.c\<close>. A \<^verbatim>\<open>GspApp *\<close> is an index
  into a list of private structs (the object heap), \<^verbatim>\<open>char *\<close> is a \<open>string option\<close>
  (\<open>None\<close> is \<^verbatim>\<open>NULL\<close>), \<^verbatim>\<open>guint\<close> and \<^verbatim>\<open>unsigned int\<close> are 32-bit words. Everything the
  C functions touch beyond the struct (the files, the application manager, the GLib main
  loop, emitted signals) is a field of one \<open>world\<close> record that every function takes and
  returns.
\<close>

subsection \<open>Data\<close>

type_synonym guint = "32 word"

datatype GIcon = FileIcon string | ThemedIcon string

record GspAppPrivate =
  basename :: "string option"
  path :: "string option"
  hidden :: bool
  nodisplay :: bool
  name :: "string option"
  exec :: "string option"
  comment :: "string option"
  icon :: "string option"
  delay :: guint
  gicon :: "GIcon option"
  description :: "string option"
  xdg_position :: guint
  xdg_system_position :: guint
  save_timeout :: guint
  save_mask :: guint
  old_system_path :: "string option"
  skip_next_monitor_event :: bool

definition GSP_ASP_SAVE_MASK_HIDDEN :: guint where "GSP_ASP_SAVE_MASK_HIDDEN = 0x0001"
definition GSP_ASP_SAVE_MASK_NAME :: guint where "GSP_ASP_SAVE_MASK_NAME = 0x0002"
definition GSP_ASP_SAVE_MASK_EXEC :: guint where "GSP_ASP_SAVE_MASK_EXEC = 0x0004"
definition GSP_ASP_SAVE_MASK_COMMENT :: guint where "GSP_ASP_SAVE_MASK_COMMENT = 0x0008"
definition GSP_ASP_SAVE_MASK_DELAY :: guint where "GSP_ASP_SAVE_MASK_DELAY = 0x0010"
definition GSP_ASP_SAVE_MASK_ALL :: guint where "GSP_ASP_SAVE_MASK_ALL = 0xffff"

definition G_MAXUINT :: guint where "G_MAXUINT = 0xffffffff"

datatype signal = CHANGED | REMOVED

text \<open>
  Modelled from the spec: the Config Document (gsp-keyfile.c and GKeyFile are not part of
  the sources). A parsed desktop file is the record of the values its typed getters
  return for the keys this program reads; a key that is absent is \<open>None\<close>. The string
  keys hold the value already resolved for the current locale.
\<close>

record keyfile =
  kf_hidden :: "bool option"
  kf_no_display :: "bool option"
  kf_name :: "string option"
  kf_comment :: "string option"
  kf_exec :: "string option"
  kf_icon :: "string option"
  kf_delay :: "guint option"
  kf_only_show_in :: "string list option"
  kf_not_show_in :: "string list option"

datatype file_content = KeyFile keyfile | Unparseable

record world =
  heap :: "GspAppPrivate list"
  manager_apps :: "nat list"
  manager_dirs :: "guint \<rightharpoonup> string"
  files :: "string \<rightharpoonup> file_content"
  read_only :: "string list"
  undeletable :: "string list"
  user_config_dir :: string
  next_source_id :: guint
  signals :: "(nat \<times> signal) list"
  gettext :: "string \<Rightarrow> string"
  g_markup_escape_text :: "string \<Rightarrow> string"
  g_shell_parse_argv :: "string \<Rightarrow> string list option"
  default_keyfile :: keyfile
  uri_basename :: "string \<Rightarrow> string option"
  uri_files :: "string \<rightharpoonup> file_content"

text \<open>
  The fields of \<open>world\<close>: \<open>heap\<close> holds the private struct of every \<^verbatim>\<open>GspApp\<close> object
  (objects are never freed in the model); \<open>manager_apps\<close> is the application manager's
  list of registered objects and \<open>manager_dirs\<close> its directory of each XDG index;
  \<open>files\<close> is the file system, \<open>read_only\<close> the paths at which writing a file fails and
  \<open>undeletable\<close> the paths at which removing a file fails;
  \<open>next_source_id\<close> is the counter of the GLib main context; \<open>signals\<close> is the log of
  emitted signals, oldest first. The remaining fields are library functions that are
  taken as parameters: the message catalogue, markup escaping, shell tokenising, the
  document that \<^verbatim>\<open>gsp_key_file_populate\<close> builds, and the basename and content behind
  a URI.
\<close>

definition priv_update :: "world \<Rightarrow> nat \<Rightarrow> (GspAppPrivate \<Rightarrow> GspAppPrivate) \<Rightarrow> world" where
  "priv_update w app f = w\<lparr>heap := (heap w)[app := f (heap w ! app)]\<rparr>"

definition GSP_IS_APP :: "world \<Rightarrow> nat \<Rightarrow> bool" where
  "GSP_IS_APP w app = (app < length (heap w))"

subsection \<open>Library functions\<close>

definition g_ascii_isspace :: "char \<Rightarrow> bool" where
  "g_ascii_isspace c =
     (c = CHR '' '' \<or> c = CHR 0x09 \<or> c = CHR 0x0A \<or> c = CHR 0x0B \<or> c = CHR 0x0C \<or> c = CHR 0x0D)"

text \<open>
  Modelled from the spec: \<^verbatim>\<open>gsm_util_text_is_blank\<close> (gsm-util.c is not part of the
  sources). A text is blank when it is absent or holds white space only.
\<close>

definition gsm_util_text_is_blank :: "string option \<Rightarrow> bool" where
  "gsm_util_text_is_blank str =
     (case str of None \<Rightarrow> True | Some s \<Rightarrow> list_all g_ascii_isspace s)"

text \<open>The characters a \<^verbatim>\<open>%s\<close> conversion prints for a C string.\<close>

definition printf_s :: "string option \<Rightarrow> string" where
  "printf_s str = (case str of None \<Rightarrow> ''(null)'' | Some s \<Rightarrow> s)"

definition is_dir_separator :: "char \<Rightarrow> bool" where
  "is_dir_separator c = (c = CHR ''/'')"

definition strip_trailing_separators :: "string \<Rightarrow> string" where
  "strip_trailing_separators s = rev (dropWhile is_dir_separator (rev s))"

text \<open>
  GLib's \<^verbatim>\<open>g_build_filename\<close> on the elements before the terminating \<^verbatim>\<open>NULL\<close>: empty
  elements are ignored, separators at the boundary of two elements are removed and one
  separator is put between them. An element that holds separators only is ignored as
  well (GLib keeps one trailing separator when such an element is the last).
\<close>

fun g_build_filename :: "string list \<Rightarrow> string" where
  "g_build_filename [] = []"
| "g_build_filename [x] = x"
| "g_build_filename (x # y # ys) =
     (if x = [] then g_build_filename (y # ys)
      else if dropWhile is_dir_separator y = [] then g_build_filename (x # ys)
      else g_build_filename
             ((strip_trailing_separators x @ ''/'' @ dropWhile is_dir_separator y) # ys))"

declare g_build_filename.simps [simp del]

text \<open>GLib's \<^verbatim>\<open>g_path_get_basename\<close>: the last component, trailing separators dropped.\<close>

definition g_path_get_basename :: "string \<Rightarrow> string" where
  "g_path_get_basename file_name =
     (if file_name = [] then ''.''
      else if strip_trailing_separators file_name = [] then ''/''
      else rev (takeWhile (\<lambda>c. \<not> is_dir_separator c)
                  (rev (strip_trailing_separators file_name))))"

definition g_path_is_absolute :: "string \<Rightarrow> bool" where
  "g_path_is_absolute file_name = (case file_name of [] \<Rightarrow> False | c # _ \<Rightarrow> is_dir_separator c)"

definition g_file_test_exists :: "world \<Rightarrow> string option \<Rightarrow> bool" where
  "g_file_test_exists w filename =
     (case filename of None \<Rightarrow> False | Some f \<Rightarrow> files w f \<noteq> None)"

text \<open>
  \<^verbatim>\<open>g_remove\<close>: the world after it. Every caller in the file drops the \<^verbatim>\<open>int\<close> it
  returns, so the model does not return it. Removing fails, and changes nothing, on a
  \<^verbatim>\<open>NULL\<close> file name and at the paths of \<open>undeletable\<close>.
\<close>

definition g_remove :: "world \<Rightarrow> string option \<Rightarrow> world" where
  "g_remove w filename =
     (case filename of
        None \<Rightarrow> w
      | Some f \<Rightarrow>
          if f \<in> set (undeletable w) then w else w\<lparr>files := (files w)(f := None)\<rparr>)"

definition g_key_file_load_from_file :: "world \<Rightarrow> string option \<Rightarrow> keyfile option" where
  "g_key_file_load_from_file w file =
     (case file of
        None \<Rightarrow> None
      | Some f \<Rightarrow> (case files w f of Some (KeyFile kf) \<Rightarrow> Some kf | _ \<Rightarrow> None))"

text \<open>
  \<^verbatim>\<open>g_key_file_save_to_file\<close>: the boolean it returns and the world after it. Writing
  fails on a \<^verbatim>\<open>NULL\<close> file name and at the paths of \<open>read_only\<close>.
\<close>

definition g_key_file_save_to_file :: "world \<Rightarrow> keyfile \<Rightarrow> string option \<Rightarrow> bool \<times> world" where
  "g_key_file_save_to_file w kf filename =
     (case filename of
        None \<Rightarrow> (False, w)
      | Some f \<Rightarrow>
          if f \<in> set (read_only w) then (False, w)
          else (True, w\<lparr>files := (files w)(f \<mapsto> KeyFile kf)\<rparr>))"

text \<open>
  \<^verbatim>\<open>g_timeout_add_seconds\<close> and \<^verbatim>\<open>g_source_remove\<close>. The main context numbers its sources
  from a counter and never hands out 0; which callbacks are pending is not part of the
  model, the handle an object keeps in \<open>save_timeout\<close> is.
\<close>

definition g_timeout_add_seconds :: "world \<Rightarrow> guint \<times> world" where
  "g_timeout_add_seconds w =
     (let id = (if next_source_id w = 0 then 1 else next_source_id w)
      in (id, w\<lparr>next_source_id := id + 1\<rparr>))"

definition g_source_remove :: "world \<Rightarrow> guint \<Rightarrow> world" where
  "g_source_remove w tag = w"

text \<open>
  Modelled from the spec: the typed getters and setters of the Config Document
  (gsp-keyfile.c is not part of the sources).
\<close>

definition gsp_key_file_get_boolean :: "bool option \<Rightarrow> bool \<Rightarrow> bool" where
  "gsp_key_file_get_boolean v default_value = (case v of None \<Rightarrow> default_value | Some b \<Rightarrow> b)"

definition gsp_key_file_get_delay :: "keyfile \<Rightarrow> guint" where
  "gsp_key_file_get_delay kf = (case kf_delay kf of None \<Rightarrow> 0 | Some d \<Rightarrow> d)"

text \<open>
  Modelled from the spec: the Entry Registry (gsp-app-manager.c is not part of the
  sources): lookup by file name, the directory of an XDG index, and registration.
\<close>

definition gsp_app_manager_find_app_with_basename :: "world \<Rightarrow> string \<Rightarrow> nat option" where
  "gsp_app_manager_find_app_with_basename w b =
     find (\<lambda>app. app < length (heap w) \<and> basename (heap w ! app) = Some b) (manager_apps w)"

definition gsp_app_manager_get_dir :: "world \<Rightarrow> guint \<Rightarrow> string option" where
  "gsp_app_manager_get_dir w index = manager_dirs w index"

definition gsp_app_manager_add :: "world \<Rightarrow> nat \<Rightarrow> world" where
  "gsp_app_manager_add w app = w\<lparr>manager_apps := app # manager_apps w\<rparr>"

subsection \<open>Strings, signals, description\<close>

definition gsp_str_equal :: "string option \<Rightarrow> string option \<Rightarrow> bool" where
  "gsp_str_equal a b =
     (if a = b then True
      else if a \<noteq> None \<and> b = None \<and> a = Some [] then True
      else if b \<noteq> None \<and> a = None \<and> b = Some [] then True
      else False)"

definition gsp_app_emit_changed :: "world \<Rightarrow> nat \<Rightarrow> world" where
  "gsp_app_emit_changed w app = w\<lparr>signals := signals w @ [(app, CHANGED)]\<rparr>"

definition gsp_app_emit_removed :: "world \<Rightarrow> nat \<Rightarrow> world" where
  "gsp_app_emit_removed w app = w\<lparr>signals := signals w @ [(app, REMOVED)]\<rparr>"

definition gsp_app_update_description :: "world \<Rightarrow> nat \<Rightarrow> world" where
  "gsp_app_update_description w app =
     (let priv = heap w ! app;
          primary =
            (if \<not> gsm_util_text_is_blank (name priv) then printf_s (name priv)
             else if \<not> gsm_util_text_is_blank (exec priv) then printf_s (exec priv)
             else gettext w ''No name'');
          secondary =
            (if \<not> gsm_util_text_is_blank (comment priv) then printf_s (comment priv)
             else gettext w ''No description'')
      in priv_update w app (\<lambda>p. p\<lparr>description :=
           Some (''<b>'' @ g_markup_escape_text w primary @ ''</b>'' @ [CHR 0x0A] @
                 g_markup_escape_text w secondary)\<rparr>))"

subsection \<open>Saving\<close>

text \<open>
  \<^verbatim>\<open>_gsp_ensure_user_autostart_dir\<close> only creates directories; the file map holds files
  only, so it leaves the world as it is.
\<close>

definition gsp_ensure_user_autostart_dir :: "world \<Rightarrow> world" where
  "gsp_ensure_user_autostart_dir w = w"

text \<open>The elements a \<^verbatim>\<open>NULL\<close>-terminated argument list holds for a C string.\<close>

definition filename_elements :: "string option \<Rightarrow> string list" where
  "filename_elements str = (case str of None \<Rightarrow> [] | Some s \<Rightarrow> [s])"

text \<open>
  \<^verbatim>\<open>_gsp_app_user_equal_system\<close>: \<open>None\<close> is \<^verbatim>\<open>FALSE\<close>, \<open>Some p\<close> is \<^verbatim>\<open>TRUE\<close> with
  \<^verbatim>\<open>*system_path\<close> set to \<open>p\<close>.
\<close>

definition gsp_app_user_equal_system :: "world \<Rightarrow> nat \<Rightarrow> string option" where
  "gsp_app_user_equal_system w app =
     (let priv = heap w ! app in
      case gsp_app_manager_get_dir w (xdg_system_position priv) of
        None \<Rightarrow> None
      | Some system_dir \<Rightarrow>
          (let pth = g_build_filename (system_dir # filename_elements (basename priv)) in
           (case g_key_file_load_from_file w (Some pth) of
              None \<Rightarrow> None
            | Some keyfile \<Rightarrow>
                if gsp_key_file_get_boolean (kf_hidden keyfile) False \<noteq> hidden priv then None
                else if \<not> gsp_str_equal (kf_name keyfile) (name priv) then None
                else if \<not> gsp_str_equal (kf_comment keyfile) (comment priv) then None
                else if \<not> gsp_str_equal (kf_exec keyfile) (exec priv) then None
                else if \<not> gsp_str_equal (kf_icon keyfile) (icon priv) then None
                else if gsp_key_file_get_delay keyfile \<noteq> delay priv then None
                else Some pth)))"

definition gsp_app_save_done_success :: "world \<Rightarrow> nat \<Rightarrow> world" where
  "gsp_app_save_done_success w app =
     priv_update w app (\<lambda>p. p\<lparr>save_mask := 0, old_system_path := None\<rparr>)"

text \<open>
  Modelled from the spec: the setters of the Config Document. A string setter leaves the
  key as it is when the value is \<^verbatim>\<open>NULL\<close>.
\<close>

definition gsp_key_file_set_string :: "string option \<Rightarrow> string option \<Rightarrow> string option" where
  "gsp_key_file_set_string old v = (case v of None \<Rightarrow> old | Some s \<Rightarrow> Some s)"

text \<open>The document \<^verbatim>\<open>_gsp_app_save\<close> starts from: the file at \<open>use_path\<close>, or a fresh one.\<close>

definition gsp_app_save_use_path :: "GspAppPrivate \<Rightarrow> string option" where
  "gsp_app_save_use_path priv =
     (if old_system_path priv \<noteq> None then old_system_path priv else path priv)"

text \<open>The dirty fields of the struct, written into the document key by key.\<close>

definition gsp_app_save_keyfile :: "world \<Rightarrow> GspAppPrivate \<Rightarrow> keyfile" where
  "gsp_app_save_keyfile w priv =
     (let k0 = (case g_key_file_load_from_file w (gsp_app_save_use_path priv) of
                  None \<Rightarrow> default_keyfile w
                | Some kf \<Rightarrow> kf);
          k1 = (if save_mask priv AND GSP_ASP_SAVE_MASK_HIDDEN \<noteq> 0
                then k0\<lparr>kf_hidden := Some (hidden priv)\<rparr> else k0);
          k2 = (if save_mask priv AND GSP_ASP_SAVE_MASK_NAME \<noteq> 0
                then k1\<lparr>kf_name := gsp_key_file_set_string (kf_name k1) (name priv)\<rparr> else k1);
          k3 = (if save_mask priv AND GSP_ASP_SAVE_MASK_COMMENT \<noteq> 0
                then k2\<lparr>kf_comment := gsp_key_file_set_string (kf_comment k2) (comment priv)\<rparr>
                else k2);
          k4 = (if save_mask priv AND GSP_ASP_SAVE_MASK_EXEC \<noteq> 0
                then k3\<lparr>kf_exec := gsp_key_file_set_string (kf_exec k3) (exec priv)\<rparr> else k3);
          k5 = (if save_mask priv AND GSP_ASP_SAVE_MASK_DELAY \<noteq> 0
                then k4\<lparr>kf_delay := Some (delay priv)\<rparr> else k4)
      in k5)"

text \<open>
  \<^verbatim>\<open>_gsp_app_save\<close>, the callback of the save timer. It returns \<^verbatim>\<open>FALSE\<close> on every
  path, so only the world after it is returned.
\<close>

definition gsp_app_save :: "world \<Rightarrow> nat \<Rightarrow> world" where
  "gsp_app_save w app =
     (case gsp_app_user_equal_system w app of
        Some use_path \<Rightarrow>
          let w1 = (if g_file_test_exists w (path (heap w ! app))
                    then g_remove w (path (heap w ! app)) else w);
              w2 = priv_update w1 app
                     (\<lambda>p. p\<lparr>path := Some use_path, xdg_position := xdg_system_position p\<rparr>)
          in gsp_app_save_done_success w2 app
      | None \<Rightarrow>
          let priv = heap w ! app;
              keyfile = gsp_app_save_keyfile w priv;
              w1 = gsp_ensure_user_autostart_dir w;
              (ok, w2) = g_key_file_save_to_file w1 keyfile (path priv);
              w3 = (if ok
                    then gsp_app_save_done_success
                           (priv_update w2 app (\<lambda>p. p\<lparr>skip_next_monitor_event := True\<rparr>)) app
                    else w2)
          in priv_update w3 app (\<lambda>p. p\<lparr>save_timeout := 0\<rparr>))"

definition gsp_app_queue_save :: "world \<Rightarrow> nat \<Rightarrow> world" where
  "gsp_app_queue_save w app =
     (let w1 = (if save_timeout (heap w ! app) \<noteq> 0
                then priv_update (g_source_remove w (save_timeout (heap w ! app))) app
                       (\<lambda>p. p\<lparr>save_timeout := 0\<rparr>)
                else w);
          w2 = (if xdg_position (heap w1 ! app) \<noteq> 0
                then priv_update w1 app
                       (\<lambda>p. p\<lparr>xdg_position := 0,
                              old_system_path :=
                                (if old_system_path p = None then path p else old_system_path p),
                              path := Some (g_build_filename
                                ([user_config_dir w1, ''autostart''] @
                                 filename_elements (basename p)))\<rparr>)
                else w1);
          (id, w3) = g_timeout_add_seconds w2
      in priv_update w3 app (\<lambda>p. p\<lparr>save_timeout := id\<rparr>))"

definition gsp_app_dispose :: "world \<Rightarrow> nat \<Rightarrow> world" where
  "gsp_app_dispose w app =
     (if \<not> GSP_IS_APP w app then w
      else if save_timeout (heap w ! app) \<noteq> 0
      then gsp_app_save
             (priv_update (g_source_remove w (save_timeout (heap w ! app))) app
                (\<lambda>p. p\<lparr>save_timeout := 0\<rparr>)) app
      else w)"

subsection \<open>Edition\<close>

definition gsp_app_set_hidden :: "world \<Rightarrow> nat \<Rightarrow> bool \<Rightarrow> world" where
  "gsp_app_set_hidden w app hid =
     (if \<not> GSP_IS_APP w app then w
      else if hid = hidden (heap w ! app) then w
      else
        let w1 = priv_update w app
                   (\<lambda>p. p\<lparr>hidden := hid, save_mask := save_mask p OR GSP_ASP_SAVE_MASK_HIDDEN\<rparr>);
            w2 = gsp_app_queue_save w1 app
        in gsp_app_emit_changed w2 app)"

definition gsp_app_set_xdg_system_position :: "world \<Rightarrow> nat \<Rightarrow> guint \<Rightarrow> world" where
  "gsp_app_set_xdg_system_position w app position =
     (if \<not> GSP_IS_APP w app then w
      else priv_update w app (\<lambda>p. p\<lparr>xdg_system_position := position\<rparr>))"

definition gsp_app_update ::
  "world \<Rightarrow> nat \<Rightarrow> string option \<Rightarrow> string option \<Rightarrow> string option \<Rightarrow> guint \<Rightarrow> world" where
  "gsp_app_update w app nm cmt ex del =
     (if \<not> GSP_IS_APP w app then w
      else
        let (changed1, w1) =
              (if \<not> gsp_str_equal nm (name (heap w ! app))
               then (True, priv_update w app
                       (\<lambda>p. p\<lparr>name := nm, save_mask := save_mask p OR GSP_ASP_SAVE_MASK_NAME\<rparr>))
               else (False, w));
            (changed2, w2) =
              (if \<not> gsp_str_equal cmt (comment (heap w1 ! app))
               then (True, priv_update w1 app
                       (\<lambda>p. p\<lparr>comment := cmt,
                              save_mask := save_mask p OR GSP_ASP_SAVE_MASK_COMMENT\<rparr>))
               else (changed1, w1));
            w3 = (if changed2 then gsp_app_update_description w2 app else w2);
            (changed3, w4) =
              (if \<not> gsp_str_equal ex (exec (heap w3 ! app))
               then (True, priv_update w3 app
                       (\<lambda>p. p\<lparr>exec := ex, save_mask := save_mask p OR GSP_ASP_SAVE_MASK_EXEC\<rparr>))
               else (changed2, w3));
            (changed4, w5) =
              (if del \<noteq> delay (heap w4 ! app)
               then (True, priv_update w4 app
                       (\<lambda>p. p\<lparr>delay := del, save_mask := save_mask p OR GSP_ASP_SAVE_MASK_DELAY\<rparr>))
               else (changed3, w4))
        in if changed4 then gsp_app_emit_changed (gsp_app_queue_save w5 app) app else w5)"

definition gsp_app_delete :: "world \<Rightarrow> nat \<Rightarrow> world" where
  "gsp_app_delete w app =
     (if \<not> GSP_IS_APP w app then w
      else if xdg_position (heap w ! app) = 0 \<and> xdg_system_position (heap w ! app) = G_MAXUINT
      then
        let w1 = (if save_timeout (heap w ! app) \<noteq> 0
                  then priv_update (g_source_remove w (save_timeout (heap w ! app))) app
                         (\<lambda>p. p\<lparr>save_timeout := 0\<rparr>)
                  else w);
            w2 = (if g_file_test_exists w1 (path (heap w1 ! app))
                  then g_remove w1 (path (heap w1 ! app)) else w1);
            w3 = priv_update w2 app
                   (\<lambda>p. p\<lparr>hidden := True, save_mask := save_mask p OR GSP_ASP_SAVE_MASK_HIDDEN\<rparr>)
        in gsp_app_emit_removed w3 app
      else
        let w1 = priv_update w app
                   (\<lambda>p. p\<lparr>hidden := True, save_mask := save_mask p OR GSP_ASP_SAVE_MASK_HIDDEN\<rparr>);
            w2 = gsp_app_queue_save w1 app
        in gsp_app_emit_changed w2 app)"

subsection \<open>New autostart app\<close>

datatype error = AssertionFailed

fun strv_contains :: "string list \<Rightarrow> string \<Rightarrow> bool" where
  "strv_contains [] s = False"
| "strv_contains (x # xs) s = (if x = s then True else strv_contains xs s)"

definition gsp_app_can_launch :: "keyfile \<Rightarrow> bool" where
  "gsp_app_can_launch keyfile =
     (if (case kf_only_show_in keyfile of
            None \<Rightarrow> False
          | Some only_show_in \<Rightarrow> \<not> strv_contains only_show_in ''MATE'')
      then False
      else if (case kf_not_show_in keyfile of
                 None \<Rightarrow> False
               | Some not_show_in \<Rightarrow> strv_contains not_show_in ''MATE'')
      then False
      else True)"

text \<open>\<^verbatim>\<open>gsp_app_init\<close>: the struct of a fresh object.\<close>

definition gsp_app_init :: GspAppPrivate where
  "gsp_app_init =
     \<lparr>basename = None, path = None, hidden = False, nodisplay = False, name = None,
      exec = None, comment = None, icon = None, delay = 0, gicon = None,
      description = None, xdg_position = G_MAXUINT, xdg_system_position = G_MAXUINT,
      save_timeout = 0, save_mask = 0, old_system_path = None,
      skip_next_monitor_event = False\<rparr>"

definition g_object_new :: "world \<Rightarrow> nat \<times> world" where
  "g_object_new w = (length (heap w), w\<lparr>heap := heap w @ [gsp_app_init]\<rparr>)"

text \<open>
  The second half of \<^verbatim>\<open>gsp_app_new\<close>, from the load of the key file on: \<open>found\<close> is the
  object the manager knows under the basename (\<open>None\<close> when \<^verbatim>\<open>new\<close> is true). A failed
  \<^verbatim>\<open>g_assert\<close> aborts the program: \<open>Inl AssertionFailed\<close>.
\<close>

definition gsp_app_new_load ::
  "world \<Rightarrow> string \<Rightarrow> guint \<Rightarrow> string \<Rightarrow> nat option \<Rightarrow> error + (nat option \<times> world)" where
  "gsp_app_new_load w pth xdgpos bn found =
     (case g_key_file_load_from_file w (Some pth) of
        None \<Rightarrow> Inr (None, w)
      | Some keyfile \<Rightarrow>
          if \<not> gsp_app_can_launch keyfile then Inr (None, w)
          else
            let (app, w1) =
                  (case found of
                     None \<Rightarrow>
                       (let (a, w') = g_object_new w
                        in (a, priv_update w' a (\<lambda>p. p\<lparr>basename := Some bn\<rparr>)))
                   | Some a \<Rightarrow>
                       (a, priv_update w a
                             (\<lambda>p. p\<lparr>path := None, name := None, exec := None, comment := None,
                                    icon := None, gicon := None, description := None,
                                    old_system_path := None\<rparr>)));
                w2 = priv_update w1 app
                       (\<lambda>p. p\<lparr>path := Some pth,
                              hidden := gsp_key_file_get_boolean (kf_hidden keyfile) False,
                              nodisplay := gsp_key_file_get_boolean (kf_no_display keyfile) False,
                              name := kf_name keyfile,
                              exec := kf_exec keyfile,
                              comment := kf_comment keyfile,
                              delay := gsp_key_file_get_delay keyfile\<rparr>);
                w3 = (if gsm_util_text_is_blank (name (heap w2 ! app))
                      then priv_update w2 app (\<lambda>p. p\<lparr>name := exec p\<rparr>) else w2);
                w4 = priv_update w3 app
                       (\<lambda>p. p\<lparr>icon := kf_icon keyfile,
                              gicon :=
                                (case kf_icon keyfile of
                                   None \<Rightarrow> None
                                 | Some i \<Rightarrow>
                                     if g_path_is_absolute i then Some (FileIcon i)
                                     else Some (ThemedIcon i))\<rparr>);
                w5 = gsp_app_update_description w4 app
            in if 0 < xdgpos \<and> \<not> xdgpos \<le> xdg_system_position (heap w5 ! app)
               then Inl AssertionFailed
               else
                 let w6 = (if 0 < xdgpos
                           then priv_update w5 app (\<lambda>p. p\<lparr>xdg_system_position := xdgpos\<rparr>)
                           else w5);
                     w7 = priv_update w6 app (\<lambda>p. p\<lparr>xdg_position := xdgpos\<rparr>)
                 in if \<not> (found \<noteq> None \<or> save_timeout (heap w7 ! app) = 0)
                    then Inl AssertionFailed
                    else
                      let w8 = priv_update w7 app
                                 (\<lambda>p. p\<lparr>save_timeout := 0, old_system_path := None,
                                        skip_next_monitor_event := False\<rparr>);
                          w9 = (if found \<noteq> None then gsp_app_emit_changed w8 app else w8)
                      in Inr (Some app, w9))"

text \<open>
  \<^verbatim>\<open>gsp_app_new\<close>: the pointer it returns (\<open>None\<close> is \<^verbatim>\<open>NULL\<close>) and the world after it.
\<close>

definition gsp_app_new :: "world \<Rightarrow> string \<Rightarrow> guint \<Rightarrow> error + (nat option \<times> world)" where
  "gsp_app_new w pth xdgpos =
     (let bn = g_path_get_basename pth in
      case gsp_app_manager_find_app_with_basename w bn of
        None \<Rightarrow> gsp_app_new_load w pth xdgpos bn None
      | Some app \<Rightarrow>
          if xdg_position (heap w ! app) = xdgpos \<and> skip_next_monitor_event (heap w ! app)
          then Inr (None, priv_update w app (\<lambda>p. p\<lparr>skip_next_monitor_event := False\<rparr>))
          else if xdg_position (heap w ! app) < xdgpos \<or> save_timeout (heap w ! app) \<noteq> 0
          then Inr (None, priv_update w app
                            (\<lambda>p. p\<lparr>xdg_system_position := min xdgpos (xdg_system_position p)\<rparr>))
          else gsp_app_new_load w pth xdgpos bn (Some app))"

definition gsp_app_reload_at :: "world \<Rightarrow> nat \<Rightarrow> string \<Rightarrow> guint \<Rightarrow> error + world" where
  "gsp_app_reload_at w app pth xdgpos =
     (if \<not> GSP_IS_APP w app then Inr w
      else
        case gsp_app_new (priv_update w app (\<lambda>p. p\<lparr>xdg_position := G_MAXUINT\<rparr>)) pth xdgpos of
          Inl e \<Rightarrow> Inl e
        | Inr (_, w') \<Rightarrow> Inr w')"

subsection \<open>Free basenames and creation\<close>

definition g_str_has_suffix :: "string option \<Rightarrow> string \<Rightarrow> bool" where
  "g_str_has_suffix str sfx =
     (case str of
        None \<Rightarrow> False
      | Some s \<Rightarrow> length sfx \<le> length s \<and> drop (length s - length sfx) s = sfx)"

function decimal :: "nat \<Rightarrow> string" where
  "decimal n =
     (if n < 10 then [''0123456789'' ! n]
      else decimal (n div 10) @ [''0123456789'' ! (n mod 10)])"
  by pat_completeness auto
termination
  by (relation "measure id") auto

declare decimal.simps [simp del]

text \<open>The characters a \<^verbatim>\<open>%d\<close> conversion prints for an \<^verbatim>\<open>int\<close>.\<close>

definition printf_d :: "int \<Rightarrow> string" where
  "printf_d i = (if i < 0 then ''-'' @ decimal (nat (- i)) else decimal (nat i))"

definition GSP_FIND_MAX_TRY :: int where
  "GSP_FIND_MAX_TRY = 10000"

text \<open>
  The \<^verbatim>\<open>while\<close> loop of \<^verbatim>\<open>_gsp_find_free_basename\<close> on its variables \<open>filename\<close>,
  \<open>basename\<close> and \<open>i\<close>; it returns the last two as the loop leaves them.
\<close>

function gsp_find_free_basename_loop ::
  "world \<Rightarrow> string \<Rightarrow> string \<Rightarrow> string \<Rightarrow> int \<Rightarrow> string \<times> int" where
  "gsp_find_free_basename_loop w base_path filename bn i =
     (if gsp_app_manager_find_app_with_basename w bn \<noteq> None \<and>
         g_file_test_exists w (Some filename) \<and> i < GSP_FIND_MAX_TRY
      then gsp_find_free_basename_loop w base_path
             (base_path @ ''-'' @ printf_d i @ ''.desktop'')
             (g_path_get_basename (base_path @ ''-'' @ printf_d i @ ''.desktop''))
             (i + 1)
      else (bn, i))"
  by pat_completeness auto
termination
  by (relation "measure (\<lambda>(w, base_path, filename, bn, i). nat (GSP_FIND_MAX_TRY - i))") auto

declare gsp_find_free_basename_loop.simps [simp del]

definition gsp_find_free_basename :: "world \<Rightarrow> string option \<Rightarrow> string option" where
  "gsp_find_free_basename w suggested_basename =
     (let base_path =
            (if g_str_has_suffix suggested_basename ''.desktop''
             then g_build_filename
                    ([user_config_dir w, ''autostart''] @
                     filename_elements
                       (map_option (\<lambda>s. take (length s - length ''.desktop'') s)
                          suggested_basename))
             else g_build_filename
                    ([user_config_dir w, ''autostart''] @ filename_elements suggested_basename));
          filename = base_path @ ''.desktop'';
          bn = g_path_get_basename filename;
          (bn', i) = gsp_find_free_basename_loop w base_path filename bn 1
      in if i = GSP_FIND_MAX_TRY then None else Some bn')"

text \<open>\<^verbatim>\<open>argv[0]\<close> of a \<^verbatim>\<open>NULL\<close>-terminated vector.\<close>

definition argv0 :: "string list \<Rightarrow> string option" where
  "argv0 argv = (case argv of [] \<Rightarrow> None | a # _ \<Rightarrow> Some a)"

definition gsp_app_create ::
  "world \<Rightarrow> string option \<Rightarrow> string option \<Rightarrow> string option \<Rightarrow> guint \<Rightarrow> world" where
  "gsp_app_create w nm cmt ex del =
     (if gsm_util_text_is_blank ex then w
      else
        case map_option (g_shell_parse_argv w) ex of
          None \<Rightarrow> w
        | Some None \<Rightarrow> w
        | Some (Some argv) \<Rightarrow>
            (case gsp_find_free_basename w (argv0 argv) of
               None \<Rightarrow> w
             | Some bn \<Rightarrow>
                 let (app, w1) = g_object_new w;
                     w2 = priv_update w1 app
                            (\<lambda>p. p\<lparr>basename := Some bn,
                                   path := Some (g_build_filename
                                             [user_config_dir w1, ''autostart'', bn]),
                                   hidden := False,
                                   nodisplay := False,
                                   name := (if \<not> gsm_util_text_is_blank nm then nm else ex),
                                   exec := ex,
                                   comment := cmt,
                                   delay := del,
                                   icon := None,
                                   gicon := None\<rparr>);
                     w3 = gsp_app_update_description w2 app;
                     w4 = priv_update w3 app
                            (\<lambda>p. p\<lparr>xdg_position := 0,
                                   xdg_system_position := G_MAXUINT,
                                   save_timeout := 0,
                                   save_mask := save_mask p OR GSP_ASP_SAVE_MASK_ALL,
                                   old_system_path := None,
                                   skip_next_monitor_event := False\<rparr>);
                     w5 = gsp_app_queue_save w4 app
                 in gsp_app_manager_add w5 app))"

text \<open>
  \<^verbatim>\<open>g_file_copy\<close> with \<^verbatim>\<open>G_FILE_COPY_NONE\<close>: it fails when the source cannot be read,
  when the destination exists and when the destination cannot be written.
\<close>

definition g_file_copy :: "world \<Rightarrow> string \<Rightarrow> string \<Rightarrow> bool \<times> world" where
  "g_file_copy w uri dst =
     (case uri_files w uri of
        None \<Rightarrow> (False, w)
      | Some c \<Rightarrow>
          if files w dst \<noteq> None \<or> dst \<in> set (read_only w) then (False, w)
          else (True, w\<lparr>files := (files w)(dst \<mapsto> c)\<rparr>))"

definition gsp_app_copy_desktop_file :: "world \<Rightarrow> string option \<Rightarrow> error + (bool \<times> world)" where
  "gsp_app_copy_desktop_file w uri =
     (case uri of
        None \<Rightarrow> Inr (False, w)
      | Some u \<Rightarrow>
          (case uri_basename w u of
             None \<Rightarrow> Inr (False, w)
           | Some src_basename \<Rightarrow>
               (case gsp_find_free_basename w (Some src_basename) of
                  None \<Rightarrow> Inr (False, w)
                | Some dst_basename \<Rightarrow>
                    let dst_path = g_build_filename
                                     [user_config_dir w, ''autostart'', dst_basename];
                        w0 = gsp_ensure_user_autostart_dir w;
                        (copied, w1) = g_file_copy w0 u dst_path
                    in if \<not> copied then Inr (False, w1)
                       else
                         (case gsp_app_new w1 dst_path 0 of
                            Inl e \<Rightarrow> Inl e
                          | Inr (None, w2) \<Rightarrow> Inr (False, g_remove w2 (Some dst_path))
                          | Inr (Some app, w2) \<Rightarrow>
                              (let (changed, w3) =
                                     (if hidden (heap w2 ! app)
                                      then (True, priv_update w2 app
                                              (\<lambda>p. p\<lparr>hidden := False,
                                                     save_mask :=
                                                       save_mask p OR GSP_ASP_SAVE_MASK_HIDDEN\<rparr>))
                                      else (False, w2));
                                   w4 = (if changed then gsp_app_queue_save w3 app else w3)
                               in Inr (True, gsp_app_manager_add w4 app))))))"

subsection \<open>The pending save of an entry\<close>

text \<open>
  What the struct does not record about an entry's save: whether the timer behind
  \<open>save_timeout\<close> is still pending in the main loop, and why a dirty mask is waiting.
  \<open>Armed\<close>: \<^verbatim>\<open>_gsp_app_queue_save\<close> has added a timer that has not run yet. \<open>Failed\<close>: the
  last flush could not write the file and the edits wait for the next one. \<open>Removed\<close>:
  \<^verbatim>\<open>gsp_app_delete\<close> has removed the entry, which was in the user directory only. \<open>Stale\<close>:
  the timer has run and removed the user file, and its handle is still in the struct.
  \<open>Idle\<close>: none of these.
\<close>

datatype pending = Idle | Armed | Failed | Removed | Stale

datatype flush_outcome = ShadowRemoved | Written | WriteFailed

text \<open>The path \<^verbatim>\<open>_gsp_app_save\<close> takes in a world.\<close>

definition gsp_app_save_outcome :: "world \<Rightarrow> nat \<Rightarrow> flush_outcome" where
  "gsp_app_save_outcome w app =
     (case gsp_app_user_equal_system w app of
        Some use_path \<Rightarrow> ShadowRemoved
      | None \<Rightarrow>
          if fst (g_key_file_save_to_file w (gsp_app_save_keyfile w (heap w ! app))
                    (path (heap w ! app)))
          then Written else WriteFailed)"

text \<open>Whether \<^verbatim>\<open>gsp_app_update\<close> sets its variable \<^verbatim>\<open>changed\<close>.\<close>

definition gsp_app_update_changes ::
  "world \<Rightarrow> nat \<Rightarrow> string option \<Rightarrow> string option \<Rightarrow> string option \<Rightarrow> guint \<Rightarrow> bool" where
  "gsp_app_update_changes w app nm cmt ex del =
     (\<not> (gsp_str_equal nm (name (heap w ! app)) \<and> gsp_str_equal cmt (comment (heap w ! app)) \<and>
         gsp_str_equal ex (exec (heap w ! app)) \<and> del = delay (heap w ! app)))"

text \<open>The test of \<^verbatim>\<open>gsp_app_delete\<close>: the entry exists in the user directory only.\<close>

definition user_only :: "GspAppPrivate \<Rightarrow> bool" where
  "user_only p = (xdg_position p = 0 \<and> xdg_system_position p = G_MAXUINT)"

definition after_timer :: "flush_outcome \<Rightarrow> pending" where
  "after_timer out =
     (case out of ShadowRemoved \<Rightarrow> Stale | Written \<Rightarrow> Idle | WriteFailed \<Rightarrow> Failed)"

definition after_dispose :: "flush_outcome \<Rightarrow> pending \<Rightarrow> pending" where
  "after_dispose out s =
     (case out of
        ShadowRemoved \<Rightarrow> Idle
      | Written \<Rightarrow> Idle
      | WriteFailed \<Rightarrow> if s = Armed then Failed else Idle)"

text \<open>
  The worlds the program can be in, each with the pending save of every object. A run
  starts with no object; between two calls anything but the objects may change (files,
  the manager's lists, the main loop's counter); every public function of the file may be
  called with any arguments; a timer runs for an object whose save is armed.
\<close>

inductive reach :: "world \<Rightarrow> (nat \<Rightarrow> pending) \<Rightarrow> bool" where
  init: "heap w = [] \<Longrightarrow> reach w (\<lambda>app. Idle)"
| environment: "reach w st \<Longrightarrow> heap w' = heap w \<Longrightarrow> reach w' st"
| new: "reach w st \<Longrightarrow> gsp_app_new w pth xdgpos = Inr (r, w') \<Longrightarrow> reach w' st"
| reload_at: "reach w st \<Longrightarrow> gsp_app_reload_at w app pth xdgpos = Inr w' \<Longrightarrow> reach w' st"
| create:
    "reach w st \<Longrightarrow> w' = gsp_app_create w nm cmt ex del \<Longrightarrow>
     reach w' (if length (heap w') = Suc (length (heap w))
               then st(length (heap w) := Armed) else st)"
| copy_desktop_file:
    "reach w st \<Longrightarrow> gsp_app_copy_desktop_file w uri = Inr (ok, w') \<Longrightarrow>
     reach w' (case manager_apps w' of
                 [] \<Rightarrow> st
               | app # apps \<Rightarrow>
                   if ok \<and> save_timeout (heap w' ! app) \<noteq> 0 then st(app := Armed) else st)"
| set_xdg_system_position:
    "reach w st \<Longrightarrow> reach (gsp_app_set_xdg_system_position w app position) st"
| set_hidden:
    "reach w st \<Longrightarrow>
     reach (gsp_app_set_hidden w app hid)
       (if GSP_IS_APP w app \<and> hid \<noteq> hidden (heap w ! app) then st(app := Armed) else st)"
| update:
    "reach w st \<Longrightarrow>
     reach (gsp_app_update w app nm cmt ex del)
       (if GSP_IS_APP w app \<and> gsp_app_update_changes w app nm cmt ex del
        then st(app := Armed) else st)"
| delete:
    "reach w st \<Longrightarrow>
     reach (gsp_app_delete w app)
       (if GSP_IS_APP w app
        then st(app := (if user_only (heap w ! app) then Removed else Armed)) else st)"
| timer:
    "reach w st \<Longrightarrow> GSP_IS_APP w app \<Longrightarrow> st app = Armed \<Longrightarrow>
     reach (gsp_app_save w app) (st(app := after_timer (gsp_app_save_outcome w app)))"
| dispose:
    "reach w st \<Longrightarrow>
     reach (gsp_app_dispose w app)
       (if GSP_IS_APP w app \<and> save_timeout (heap w ! app) \<noteq> 0
        then st(app := after_dispose (gsp_app_save_outcome w app) (st app)) else st)"

text \<open>What each pending save means for the mask and the handle of the struct.\<close>

definition pending_ok :: "GspAppPrivate \<Rightarrow> pending \<Rightarrow> bool" where
  "pending_ok p s =
     ((save_mask p \<noteq> 0) = (s = Armed \<or> s = Failed \<or> s = Removed) \<and>
      (save_timeout p \<noteq> 0) = (s = Armed \<or> s = Stale))"

text \<open>Every object of a world agrees with its pending save; no other index has one.\<close>

definition all_ok :: "world \<Rightarrow> (nat \<Rightarrow> pending) \<Rightarrow> bool" where
  "all_ok w st =
     ((\<forall>q. q < length (heap w) \<longrightarrow> pending_ok (heap w ! q) (st q)) \<and>
      (\<forall>q. length (heap w) \<le> q \<longrightarrow> st q = Idle))"

subsection \<open>Example worlds\<close>

text \<open>
  A session with one system directory that holds \<^verbatim>\<open>foo.desktop\<close>, and the states of the
  entries the examples below go through.
\<close>

definition ex_keyfile :: keyfile where
  "ex_keyfile =
     \<lparr>kf_hidden = None, kf_no_display = None, kf_name = Some ''Foo'', kf_comment = None,
      kf_exec = Some ''foo'', kf_icon = None, kf_delay = None, kf_only_show_in = None,
      kf_not_show_in = None\<rparr>"

definition ex_world :: world where
  "ex_world =
     \<lparr>heap = [], manager_apps = [],
      manager_dirs = [0 \<mapsto> ''/home/u/.config/autostart'', 1 \<mapsto> ''/etc/xdg/autostart''],
      files = [''/etc/xdg/autostart/foo.desktop'' \<mapsto> KeyFile ex_keyfile],
      read_only = [], undeletable = [], user_config_dir = ''/home/u/.config'',
      next_source_id = 1, signals = [],
      gettext = (\<lambda>s. s), g_markup_escape_text = (\<lambda>s. s),
      g_shell_parse_argv =
        (\<lambda>s. if s = [] then None else Some [takeWhile (\<lambda>c. c \<noteq> CHR '' '') s]),
      default_keyfile = ex_keyfile\<lparr>kf_name := None, kf_exec := None\<rparr>,
      uri_basename = (\<lambda>s. None), uri_files = Map.empty\<rparr>"

text \<open>The system entry, loaded from its directory and registered.\<close>

definition ex_system_app :: GspAppPrivate where
  "ex_system_app =
     \<lparr>basename = Some ''foo.desktop'', path = Some ''/etc/xdg/autostart/foo.desktop'',
      hidden = False, nodisplay = False, name = Some ''Foo'', exec = Some ''foo'',
      comment = None, icon = None, delay = 0, gicon = None,
      description = Some (''<b>Foo</b>'' @ [CHR 0x0A] @ ''No description''),
      xdg_position = 1, xdg_system_position = 1, save_timeout = 0, save_mask = 0,
      old_system_path = None, skip_next_monitor_event = False\<rparr>"

definition ex_loaded :: world where
  "ex_loaded = ex_world\<lparr>heap := [ex_system_app], manager_apps := [0]\<rparr>"

text \<open>
  The system entry after the user has hidden it, the flush has written the override, and
  the user has shown it again: a save is armed and the fields equal the system file.
\<close>

definition ex_override_app :: GspAppPrivate where
  "ex_override_app =
     \<lparr>basename = Some ''foo.desktop'', path = Some ''/home/u/.config/autostart/foo.desktop'',
      hidden = False, nodisplay = False, name = Some ''Foo'', exec = Some ''foo'',
      comment = None, icon = None, delay = 0, gicon = None,
      description = Some (''<b>Foo</b>'' @ [CHR 0x0A] @ ''No description''),
      xdg_position = 0, xdg_system_position = 1, save_timeout = 2, save_mask = 1,
      old_system_path = None, skip_next_monitor_event = True\<rparr>"

definition ex_override :: world where
  "ex_override =
     ex_world\<lparr>heap := [ex_override_app], manager_apps := [0],
       files := [''/etc/xdg/autostart/foo.desktop'' \<mapsto> KeyFile ex_keyfile,
                 ''/home/u/.config/autostart/foo.desktop'' \<mapsto>
                   KeyFile (ex_keyfile\<lparr>kf_hidden := Some True\<rparr>)],
       next_source_id := 3, signals := [(0, CHANGED), (0, CHANGED)]\<rparr>"

text \<open>The same world when the override cannot be removed.\<close>

definition ex_override_undeletable :: world where
  "ex_override_undeletable =
     ex_override\<lparr>undeletable := [''/home/u/.config/autostart/foo.desktop'']\<rparr>"

text \<open>
  The world after the timer's flush has removed the override of \<open>ex_override\<close> and a file
  of that name has been put back in the user directory by hand: the entry is on the
  system file again, and the handle of the timer that has run is still in the struct.
\<close>

definition ex_stale_app :: GspAppPrivate where
  "ex_stale_app =
     ex_override_app\<lparr>path := Some ''/etc/xdg/autostart/foo.desktop'', xdg_position := 1,
                      save_mask := 0\<rparr>"

definition ex_restored :: world where
  "ex_restored = ex_override\<lparr>heap := [ex_stale_app]\<rparr>"

text \<open>A user entry without a name, hidden by an edit whose save is armed.\<close>

definition ex_user_app :: GspAppPrivate where
  "ex_user_app =
     \<lparr>basename = Some ''bar.desktop'', path = Some ''/home/u/.config/autostart/bar.desktop'',
      hidden = True, nodisplay = False, name = None, exec = Some ''bar'',
      comment = None, icon = None, delay = 0, gicon = None,
      description = Some (''<b>bar</b>'' @ [CHR 0x0A] @ ''No description''),
      xdg_position = 0, xdg_system_position = G_MAXUINT, save_timeout = 1, save_mask = 1,
      old_system_path = None, skip_next_monitor_event = False\<rparr>"

definition ex_armed :: world where
  "ex_armed = ex_world\<lparr>heap := [ex_user_app], manager_apps := [0], next_source_id := 2\<rparr>"

definition ex_armed_read_only :: world where
  "ex_armed_read_only = ex_armed\<lparr>read_only := [''/home/u/.config/autostart/bar.desktop'']\<rparr>"

text \<open>The world after a launcher for \<^verbatim>\<open>baz --x\<close> has been created.\<close>

definition ex_created_app :: GspAppPrivate where
  "ex_created_app =
     \<lparr>basename = Some ''baz.desktop'', path = Some ''/home/u/.config/autostart/baz.desktop'',
      hidden = False, nodisplay = False, name = Some ''Baz'', exec = Some ''baz --x'',
      comment = None, icon = None, delay = 0, gicon = None,
      description = Some (''<b>Baz</b>'' @ [CHR 0x0A] @ ''No description''),
      xdg_position = 0, xdg_system_position = G_MAXUINT, save_timeout = 1, save_mask = 0xffff,
      old_system_path = None, skip_next_monitor_event = False\<rparr>"

definition ex_created :: world where
  "ex_created = gsp_app_create ex_world (Some ''Baz'') None (Some ''baz --x'') 0"

text \<open>The same world when the user directory cannot be written.\<close>

definition ex_created_read_only :: world where
  "ex_created_read_only =
     ex_created\<lparr>read_only := [''/home/u/.config/autostart/baz.desktop'']\<rparr>"

section \<open>Properties\<close>

subsection \<open>Evaluation and frame lemmas\<close>

lemmas ex_defs = ex_keyfile_def ex_world_def ex_system_app_def ex_loaded_def ex_user_app_def
  ex_armed_def ex_armed_read_only_def ex_override_app_def ex_override_def ex_created_app_def
  ex_override_undeletable_def ex_stale_app_def ex_restored_def

lemmas lib_defs = g_build_filename.simps g_path_get_basename_def strip_trailing_separators_def
  is_dir_separator_def gsp_app_manager_find_app_with_basename_def g_key_file_load_from_file_def
  g_key_file_save_to_file_def g_file_test_exists_def g_remove_def g_source_remove_def
  g_timeout_add_seconds_def gsp_app_manager_get_dir_def gsp_app_manager_add_def
  gsp_key_file_get_boolean_def gsp_key_file_get_delay_def gsp_key_file_set_string_def
  gsm_util_text_is_blank_def g_ascii_isspace_def printf_s_def filename_elements_def
  g_path_is_absolute_def g_str_has_suffix_def g_object_new_def gsp_app_init_def
  gsp_ensure_user_autostart_dir_def GSP_IS_APP_def G_MAXUINT_def priv_update_def

lemmas mask_defs = GSP_ASP_SAVE_MASK_HIDDEN_def GSP_ASP_SAVE_MASK_NAME_def
  GSP_ASP_SAVE_MASK_EXEC_def GSP_ASP_SAVE_MASK_COMMENT_def GSP_ASP_SAVE_MASK_DELAY_def
  GSP_ASP_SAVE_MASK_ALL_def

lemmas app_defs = gsp_str_equal_def gsp_app_emit_changed_def gsp_app_emit_removed_def
  gsp_app_update_description_def gsp_app_user_equal_system_def gsp_app_save_done_success_def
  gsp_app_save_use_path_def gsp_app_save_keyfile_def gsp_app_save_def gsp_app_queue_save_def
  gsp_app_dispose_def gsp_app_set_hidden_def gsp_app_update_def gsp_app_delete_def
  gsp_app_can_launch_def gsp_app_new_load_def gsp_app_new_def gsp_app_reload_at_def

lemma priv_update_fields [simp]:
  "heap (priv_update w app f) = (heap w)[app := f (heap w ! app)]"
  "manager_apps (priv_update w app f) = manager_apps w"
  "manager_dirs (priv_update w app f) = manager_dirs w"
  "files (priv_update w app f) = files w"
  "read_only (priv_update w app f) = read_only w"
  "undeletable (priv_update w app f) = undeletable w"
  "user_config_dir (priv_update w app f) = user_config_dir w"
  "next_source_id (priv_update w app f) = next_source_id w"
  "signals (priv_update w app f) = signals w"
  "gettext (priv_update w app f) = gettext w"
  "g_markup_escape_text (priv_update w app f) = g_markup_escape_text w"
  "g_shell_parse_argv (priv_update w app f) = g_shell_parse_argv w"
  "default_keyfile (priv_update w app f) = default_keyfile w"
  "uri_basename (priv_update w app f) = uri_basename w"
  "uri_files (priv_update w app f) = uri_files w"
  by (simp_all add: priv_update_def)

lemma nth_list_update_if:
  "a < length xs \<Longrightarrow> xs[i := v] ! a = (if a = i then v else xs ! a)"
  by (cases "a = i") simp_all

lemma find_app_Some:
  "gsp_app_manager_find_app_with_basename w b = Some app \<Longrightarrow>
     app < length (heap w) \<and> basename (heap w ! app) = Some b \<and> app \<in> set (manager_apps w)"
  unfolding gsp_app_manager_find_app_with_basename_def
  by (auto simp: find_Some_iff)

lemma find_app_heap_cong:
  assumes "length (heap w') = length (heap w)"
      and "\<And>a. a < length (heap w) \<Longrightarrow> basename (heap w' ! a) = basename (heap w ! a)"
      and "manager_apps w' = manager_apps w"
  shows "gsp_app_manager_find_app_with_basename w' b = gsp_app_manager_find_app_with_basename w b"
  unfolding gsp_app_manager_find_app_with_basename_def using assms
  by (intro find_cong) auto

text \<open>The two ways out of the write path of \<^verbatim>\<open>_gsp_app_save\<close>.\<close>

lemma gsp_app_save_write_path:
  assumes "gsp_app_user_equal_system w app = None"
  shows "gsp_app_save w app =
     (case g_key_file_save_to_file w (gsp_app_save_keyfile w (heap w ! app)) (path (heap w ! app)) of
        (ok, w2) \<Rightarrow>
          priv_update
            (if ok then gsp_app_save_done_success
                          (priv_update w2 app (\<lambda>p. p\<lparr>skip_next_monitor_event := True\<rparr>)) app
             else w2) app (\<lambda>p. p\<lparr>save_timeout := 0\<rparr>))"
  using assms by (simp add: gsp_app_save_def gsp_ensure_user_autostart_dir_def Let_def)

lemma gsp_app_save_write_failed:
  assumes "gsp_app_user_equal_system w app = None"
      and "path (heap w ! app) = Some f" and "f \<in> set (read_only w)"
  shows "gsp_app_save w app = priv_update w app (\<lambda>p. p\<lparr>save_timeout := 0\<rparr>)"
  using assms by (simp add: gsp_app_save_write_path g_key_file_save_to_file_def)

lemma gsp_app_save_write_ok:
  assumes "gsp_app_user_equal_system w app = None"
      and "path (heap w ! app) = Some f" and "f \<notin> set (read_only w)" and "app < length (heap w)"
  shows "gsp_app_save w app =
           priv_update (w\<lparr>files := (files w)(f \<mapsto> KeyFile (gsp_app_save_keyfile w (heap w ! app)))\<rparr>) app
             (\<lambda>p. p\<lparr>skip_next_monitor_event := True, save_mask := 0, old_system_path := None,
                    save_timeout := 0\<rparr>)"
  using assms
  by (simp add: gsp_app_save_write_path g_key_file_save_to_file_def gsp_app_save_done_success_def
      priv_update_def)

text \<open>What \<^verbatim>\<open>_gsp_app_queue_save\<close> leaves alone.\<close>

lemma heap_queue_save_length [simp]:
  "length (heap (gsp_app_queue_save w app)) = length (heap w)"
  by (simp add: gsp_app_queue_save_def g_timeout_add_seconds_def g_source_remove_def Let_def)

lemma heap_queue_save_other:
  "q \<noteq> app \<Longrightarrow> heap (gsp_app_queue_save w app) ! q = heap w ! q"
  by (simp add: gsp_app_queue_save_def g_timeout_add_seconds_def g_source_remove_def Let_def)

lemma queue_save_env [simp]:
  "files (gsp_app_queue_save w app) = files w"
  "default_keyfile (gsp_app_queue_save w app) = default_keyfile w"
  "manager_apps (gsp_app_queue_save w app) = manager_apps w"
  "signals (gsp_app_queue_save w app) = signals w"
  by (simp_all add: gsp_app_queue_save_def g_timeout_add_seconds_def g_source_remove_def Let_def
      split: prod.splits)

lemma queue_save_keeps:
  assumes "app < length (heap w)"
  shows "save_mask (heap (gsp_app_queue_save w app) ! app) = save_mask (heap w ! app)"
    and "hidden (heap (gsp_app_queue_save w app) ! app) = hidden (heap w ! app)"
    and "name (heap (gsp_app_queue_save w app) ! app) = name (heap w ! app)"
    and "comment (heap (gsp_app_queue_save w app) ! app) = comment (heap w ! app)"
    and "exec (heap (gsp_app_queue_save w app) ! app) = exec (heap w ! app)"
    and "delay (heap (gsp_app_queue_save w app) ! app) = delay (heap w ! app)"
  using assms
  by (simp_all add: gsp_app_queue_save_def g_timeout_add_seconds_def g_source_remove_def Let_def)

lemma queue_save_use_path:
  assumes "app < length (heap w)" and "path (heap w ! app) \<noteq> None"
  shows "gsp_app_save_use_path (heap (gsp_app_queue_save w app) ! app) =
         gsp_app_save_use_path (heap w ! app)"
  using assms
  by (auto simp add: gsp_app_queue_save_def g_timeout_add_seconds_def g_source_remove_def Let_def
      gsp_app_save_use_path_def)

lemma gsp_app_save_keyfile_cong:
  assumes "files w' = files w" and "default_keyfile w' = default_keyfile w"
      and "gsp_app_save_use_path p' = gsp_app_save_use_path p"
      and "save_mask p' = save_mask p" and "hidden p' = hidden p" and "name p' = name p"
      and "comment p' = comment p" and "exec p' = exec p" and "delay p' = delay p"
  shows "gsp_app_save_keyfile w' p' = gsp_app_save_keyfile w p"
  unfolding gsp_app_save_keyfile_def g_key_file_load_from_file_def assms ..



lemma parse_ex_world: "g_shell_parse_argv ex_world ''baz --x'' = Some [''baz'']"
  by (simp add: ex_defs)

lemma find_free_ex_world:
  "gsp_find_free_basename ex_world (argv0 [''baz'']) = Some ''baz.desktop''"
  by (simp add: ex_defs lib_defs gsp_find_free_basename_def argv0_def
        gsp_find_free_basename_loop.simps GSP_FIND_MAX_TRY_def)

lemma ex_created_eq:
  "ex_created = ex_world\<lparr>heap := [ex_created_app], manager_apps := [0], next_source_id := 2\<rparr>"
  by (simp add: ex_created_def gsp_app_create_def parse_ex_world find_free_ex_world
      gsm_util_text_is_blank_def g_ascii_isspace_def)
     (simp add: ex_defs lib_defs app_defs mask_defs Let_def)

lemma parse_ex_created: "g_shell_parse_argv ex_created ''baz --y'' = Some [''baz'']"
  by (simp add: ex_created_eq ex_defs)

lemma find_free_ex_created:
  "gsp_find_free_basename ex_created (argv0 [''baz'']) = Some ''baz.desktop''"
  by (simp add: ex_created_eq ex_defs lib_defs gsp_find_free_basename_def
        argv0_def gsp_find_free_basename_loop.simps GSP_FIND_MAX_TRY_def)

lemma gsp_app_create_basename:
  assumes "\<not> gsm_util_text_is_blank (Some e)"
      and "g_shell_parse_argv w e = Some argv"
      and "gsp_find_free_basename w (argv0 argv) = Some bn"
  shows "basename (heap (gsp_app_create w nm cmt (Some e) del) ! length (heap w)) = Some bn"
    and "q < length (heap w) \<Longrightarrow> heap (gsp_app_create w nm cmt (Some e) del) ! q = heap w ! q"
  using assms
  by (simp_all add: gsp_app_create_def g_object_new_def gsp_app_update_description_def
      gsp_app_manager_add_def gsp_app_queue_save_def g_timeout_add_seconds_def
      g_source_remove_def Let_def nth_append)

subsection \<open>The flush\<close>

text \<open>
  C1 (the flush clears the timer handle on every outcome). The code clears \<open>save_timeout\<close>
  at the end of the write path only; the shadow-removal path returns before that line.
  In \<open>ex_override\<close> the user has hidden the system entry \<^verbatim>\<open>foo.desktop\<close>, the override has
  been written, and the user has shown the entry again, which armed the timer with
  handle 2. The fields now equal the system file, so the timer's flush removes the
  override, and when it returns the handle in the struct is still 2.
\<close>

theorem gsp_app_save_shadow_removal_keeps_timeout:
  "ex_override =
     gsp_app_set_hidden (gsp_app_save (gsp_app_set_hidden ex_loaded 0 True) 0) 0 False \<and>
   save_timeout (heap ex_override ! 0) = 2 \<and>
   gsp_app_user_equal_system ex_override 0 = Some ''/etc/xdg/autostart/foo.desktop'' \<and>
   save_timeout (heap (gsp_app_save ex_override 0) ! 0) = 2"
  by (simp add: ex_defs lib_defs app_defs mask_defs Let_def)








text \<open>
  C7 (a failed write loses nothing). When the flush takes the write path and the file at
  the entry's path cannot be written, the flush changes nothing but the timer handle,
  which it clears: the mask, the old system path, the fields and the files are as before.
  When a save is queued again, the mask is still the same and the next flush starts from
  the same document (the same \<open>use_path\<close>) and builds the same key file.
\<close>

theorem gsp_app_save_failure_retry:
  assumes "app < length (heap w)"
      and "gsp_app_user_equal_system w app = None"
      and "path (heap w ! app) = Some f"
      and "f \<in> set (read_only w)"
  shows "gsp_app_save w app = priv_update w app (\<lambda>p. p\<lparr>save_timeout := 0\<rparr>) \<and>
         save_mask (heap (gsp_app_save w app) ! app) = save_mask (heap w ! app) \<and>
         old_system_path (heap (gsp_app_save w app) ! app) = old_system_path (heap w ! app) \<and>
         save_mask (heap (gsp_app_queue_save (gsp_app_save w app) app) ! app) =
           save_mask (heap w ! app) \<and>
         gsp_app_save_use_path (heap (gsp_app_queue_save (gsp_app_save w app) app) ! app) =
           gsp_app_save_use_path (heap w ! app) \<and>
         gsp_app_save_keyfile (gsp_app_queue_save (gsp_app_save w app) app)
             (heap (gsp_app_queue_save (gsp_app_save w app) app) ! app) =
           gsp_app_save_keyfile w (heap w ! app)"
proof -
  define w1 where "w1 = gsp_app_save w app"
  define w2 where "w2 = gsp_app_queue_save w1 app"
  have failed: "w1 = priv_update w app (\<lambda>p. p\<lparr>save_timeout := 0\<rparr>)"
    unfolding w1_def using assms(2-4) by (rule gsp_app_save_write_failed)
  have p1: "heap w1 ! app = (heap w ! app)\<lparr>save_timeout := 0\<rparr>"
    using assms(1) by (simp add: failed)
  have len1: "app < length (heap w1)"
    using assms(1) by (simp add: failed)
  have env1: "files w1 = files w" "default_keyfile w1 = default_keyfile w"
    by (simp_all add: failed)
  have path1: "path (heap w1 ! app) \<noteq> None"
    using assms(3) by (simp add: p1)
  have use1: "gsp_app_save_use_path (heap w1 ! app) = gsp_app_save_use_path (heap w ! app)"
    by (simp add: p1 gsp_app_save_use_path_def)
  have mask2: "save_mask (heap w2 ! app) = save_mask (heap w ! app)"
    unfolding w2_def by (simp add: queue_save_keeps(1) [OF len1] p1)
  have use2: "gsp_app_save_use_path (heap w2 ! app) = gsp_app_save_use_path (heap w ! app)"
    unfolding w2_def by (simp add: queue_save_use_path [OF len1 path1] use1)
  have kf2: "gsp_app_save_keyfile w2 (heap w2 ! app) = gsp_app_save_keyfile w (heap w ! app)"
  proof (rule gsp_app_save_keyfile_cong)
    show "files w2 = files w" "default_keyfile w2 = default_keyfile w"
      unfolding w2_def by (simp_all add: env1)
    show "gsp_app_save_use_path (heap w2 ! app) = gsp_app_save_use_path (heap w ! app)"
      by (rule use2)
    show "save_mask (heap w2 ! app) = save_mask (heap w ! app)"
      by (rule mask2)
    show "hidden (heap w2 ! app) = hidden (heap w ! app)"
         "name (heap w2 ! app) = name (heap w ! app)"
         "comment (heap w2 ! app) = comment (heap w ! app)"
         "exec (heap w2 ! app) = exec (heap w ! app)"
         "delay (heap w2 ! app) = delay (heap w ! app)"
      unfolding w2_def by (simp_all add: queue_save_keeps [OF len1] p1)
  qed
  have "save_mask (heap w1 ! app) = save_mask (heap w ! app)"
       "old_system_path (heap w1 ! app) = old_system_path (heap w ! app)"
    by (simp_all add: p1)
  with failed mask2 use2 kf2 show ?thesis
    unfolding w2_def w1_def by blast
qed

theorem gsp_app_save_failure_retry_witness:
  "0 < length (heap ex_armed_read_only) \<and>
   gsp_app_user_equal_system ex_armed_read_only 0 = None \<and>
   path (heap ex_armed_read_only ! 0) = Some ''/home/u/.config/autostart/bar.desktop'' \<and>
   ''/home/u/.config/autostart/bar.desktop'' \<in> set (read_only ex_armed_read_only) \<and>
   gsp_app_save ex_armed_read_only 0 =
     priv_update ex_armed_read_only 0 (\<lambda>p. p\<lparr>save_timeout := 0\<rparr>) \<and>
   save_mask (heap (gsp_app_save ex_armed_read_only 0) ! 0) =
     save_mask (heap ex_armed_read_only ! 0) \<and>
   save_mask (heap (gsp_app_queue_save (gsp_app_save ex_armed_read_only 0) 0) ! 0) =
     save_mask (heap ex_armed_read_only ! 0) \<and>
   gsp_app_save_keyfile (gsp_app_queue_save (gsp_app_save ex_armed_read_only 0) 0)
       (heap (gsp_app_queue_save (gsp_app_save ex_armed_read_only 0) 0) ! 0) =
     gsp_app_save_keyfile ex_armed_read_only (heap ex_armed_read_only ! 0)"
proof -
  have h: "0 < length (heap ex_armed_read_only)"
          "gsp_app_user_equal_system ex_armed_read_only 0 = None"
          "path (heap ex_armed_read_only ! 0) = Some ''/home/u/.config/autostart/bar.desktop''"
          "''/home/u/.config/autostart/bar.desktop'' \<in> set (read_only ex_armed_read_only)"
    by (simp_all add: ex_defs lib_defs gsp_app_user_equal_system_def)
  from h gsp_app_save_failure_retry [OF h] show ?thesis by blast
qed

subsection \<open>Loading and reloading\<close>

text \<open>
  C5 (the suppression flag). After a flush that wrote the file, the flag
  \<open>skip_next_monitor_event\<close> is set, and the call of \<^verbatim>\<open>gsp_app_new\<close> that follows, for the
  path that was written and the position of the entry, returns \<^verbatim>\<open>NULL\<close> and changes
  nothing but the flag, which it clears: no field is loaded from the file.
\<close>

theorem gsp_app_new_after_save:
  assumes "gsp_app_user_equal_system w app = None"
      and "path (heap w ! app) = Some f"
      and "f \<notin> set (read_only w)"
      and "gsp_app_manager_find_app_with_basename w (g_path_get_basename f) = Some app"
  shows "skip_next_monitor_event (heap (gsp_app_save w app) ! app) \<and>
         gsp_app_new (gsp_app_save w app) f (xdg_position (heap (gsp_app_save w app) ! app)) =
           Inr (None, priv_update (gsp_app_save w app) app
                        (\<lambda>p. p\<lparr>skip_next_monitor_event := False\<rparr>))"
proof -
  from assms(4) have len: "app < length (heap w)"
    by (simp add: find_app_Some)
  let ?w' = "gsp_app_save w app"
  have save: "?w' =
      priv_update (w\<lparr>files := (files w)(f \<mapsto> KeyFile (gsp_app_save_keyfile w (heap w ! app)))\<rparr>) app
        (\<lambda>p. p\<lparr>skip_next_monitor_event := True, save_mask := 0, old_system_path := None,
               save_timeout := 0\<rparr>)"
    using assms(1-3) len by (rule gsp_app_save_write_ok)
  have skip: "skip_next_monitor_event (heap ?w' ! app)"
    using len by (simp add: save)
  have "gsp_app_manager_find_app_with_basename ?w' (g_path_get_basename f) =
        gsp_app_manager_find_app_with_basename w (g_path_get_basename f)"
    by (rule find_app_heap_cong) (simp_all add: save nth_list_update_if)
  with assms(4) have "gsp_app_manager_find_app_with_basename ?w' (g_path_get_basename f) = Some app"
    by simp
  with skip show ?thesis
    by (simp add: gsp_app_new_def)
qed

theorem gsp_app_new_after_save_witness:
  "gsp_app_user_equal_system ex_armed 0 = None \<and>
   path (heap ex_armed ! 0) = Some ''/home/u/.config/autostart/bar.desktop'' \<and>
   ''/home/u/.config/autostart/bar.desktop'' \<notin> set (read_only ex_armed) \<and>
   gsp_app_manager_find_app_with_basename ex_armed
     (g_path_get_basename ''/home/u/.config/autostart/bar.desktop'') = Some 0 \<and>
   skip_next_monitor_event (heap (gsp_app_save ex_armed 0) ! 0) \<and>
   gsp_app_new (gsp_app_save ex_armed 0) ''/home/u/.config/autostart/bar.desktop''
       (xdg_position (heap (gsp_app_save ex_armed 0) ! 0)) =
     Inr (None, priv_update (gsp_app_save ex_armed 0) 0
                  (\<lambda>p. p\<lparr>skip_next_monitor_event := False\<rparr>))"
proof -
  have h: "gsp_app_user_equal_system ex_armed 0 = None"
          "path (heap ex_armed ! 0) = Some ''/home/u/.config/autostart/bar.desktop''"
          "''/home/u/.config/autostart/bar.desktop'' \<notin> set (read_only ex_armed)"
          "gsp_app_manager_find_app_with_basename ex_armed
             (g_path_get_basename ''/home/u/.config/autostart/bar.desktop'') = Some 0"
    by (simp_all add: ex_defs lib_defs gsp_app_user_equal_system_def)
  from h gsp_app_new_after_save [OF h] show ?thesis by simp
qed

text \<open>
  C6 (a duplicate of lower priority). When the manager knows an entry under the basename
  of the path and the entry's position is strictly smaller than the position of the call,
  \<^verbatim>\<open>gsp_app_new\<close> returns \<^verbatim>\<open>NULL\<close> and the world is as before except for the entry's
  \<open>xdg_system_position\<close>, which becomes the minimum of the call's position and its old
  value. Name, exec, comment, icon, hidden, delay, description and path are unchanged.
\<close>

theorem gsp_app_new_lower_priority:
  assumes "gsp_app_manager_find_app_with_basename w (g_path_get_basename pth) = Some app"
      and "xdg_position (heap w ! app) < r'"
  shows "gsp_app_new w pth r' =
           Inr (None, priv_update w app
                  (\<lambda>p. p\<lparr>xdg_system_position := min r' (xdg_system_position p)\<rparr>))"
  using assms by (auto simp add: gsp_app_new_def)

theorem gsp_app_new_lower_priority_witness:
  "gsp_app_manager_find_app_with_basename ex_loaded
     (g_path_get_basename ''/usr/share/autostart/foo.desktop'') = Some 0 \<and>
   xdg_position (heap ex_loaded ! 0) < 2 \<and>
   gsp_app_new ex_loaded ''/usr/share/autostart/foo.desktop'' 2 =
     Inr (None, priv_update ex_loaded 0
            (\<lambda>p. p\<lparr>xdg_system_position := min 2 (xdg_system_position p)\<rparr>))"
proof -
  have h: "gsp_app_manager_find_app_with_basename ex_loaded
             (g_path_get_basename ''/usr/share/autostart/foo.desktop'') = Some 0"
          "xdg_position (heap ex_loaded ! 0) < 2"
    by (simp_all add: ex_defs lib_defs)
  from h gsp_app_new_lower_priority [OF h] show ?thesis by simp
qed

text \<open>
  C9 as the claim states it fails: a call that arrives while a save is armed does not
  always take the branch of the lower-priority duplicate. In \<open>ex_override\<close> a save is
  armed (handle 2) and the suppression flag of the last written flush is still set; the
  call for the user file at position 0 takes the suppression branch, which is tested
  first: it clears the flag and leaves \<open>xdg_system_position\<close> at 1, where the duplicate
  branch would have set it to 0.
\<close>

theorem gsp_app_new_save_pending_counterexample:
  "gsp_app_manager_find_app_with_basename ex_override
     (g_path_get_basename ''/home/u/.config/autostart/foo.desktop'') = Some 0 \<and>
   save_timeout (heap ex_override ! 0) \<noteq> 0 \<and>
   gsp_app_new ex_override ''/home/u/.config/autostart/foo.desktop'' 0 \<noteq>
     Inr (None, priv_update ex_override 0
            (\<lambda>p. p\<lparr>xdg_system_position := min 0 (xdg_system_position p)\<rparr>))"
  by (simp add: ex_defs lib_defs app_defs Let_def)

text \<open>
  C9, amended (no reload while a save is armed). When the manager knows an entry under
  the basename of the path and the entry's \<open>save_timeout\<close> is not 0, \<^verbatim>\<open>gsp_app_new\<close>
  returns \<^verbatim>\<open>NULL\<close> and loads no field: when the position of the call is the entry's and
  the suppression flag is set it only clears the flag, otherwise it only lowers
  \<open>xdg_system_position\<close> to the minimum of the call's position and its old value. So the
  fields are loaded again from a file only for an entry whose \<open>save_timeout\<close> is 0.
\<close>

theorem gsp_app_new_save_pending:
  assumes "gsp_app_manager_find_app_with_basename w (g_path_get_basename pth) = Some app"
      and "save_timeout (heap w ! app) \<noteq> 0"
  shows "gsp_app_new w pth r =
           Inr (None, priv_update w app
                  (\<lambda>p. if xdg_position p = r \<and> skip_next_monitor_event p
                       then p\<lparr>skip_next_monitor_event := False\<rparr>
                       else p\<lparr>xdg_system_position := min r (xdg_system_position p)\<rparr>))"
  using assms by (auto simp add: gsp_app_new_def priv_update_def)

theorem gsp_app_new_save_pending_witness:
  "gsp_app_manager_find_app_with_basename ex_armed
     (g_path_get_basename ''/home/u/.config/autostart/bar.desktop'') = Some 0 \<and>
   save_timeout (heap ex_armed ! 0) \<noteq> 0 \<and>
   gsp_app_new ex_armed ''/home/u/.config/autostart/bar.desktop'' 0 =
     Inr (None, ex_armed\<lparr>heap := [ex_user_app\<lparr>xdg_system_position := 0\<rparr>]\<rparr>)"
proof -
  have h: "gsp_app_manager_find_app_with_basename ex_armed
             (g_path_get_basename ''/home/u/.config/autostart/bar.desktop'') = Some 0"
          "save_timeout (heap ex_armed ! 0) \<noteq> 0"
    by (simp_all add: ex_defs lib_defs)
  from h gsp_app_new_save_pending [OF h, of 0] show ?thesis
    by (simp add: ex_defs lib_defs)
qed

subsection \<open>Edition\<close>

text \<open>
  C8 (an update that changes nothing). When the name, the comment and the exec of the
  call equal the entry's under \<^verbatim>\<open>_gsp_str_equal\<close> (equal strings, or one \<^verbatim>\<open>NULL\<close> and the
  other empty) and the delay is the entry's, \<^verbatim>\<open>gsp_app_update\<close> returns the world it was
  given: no field is replaced, no bit of the mask is set, no save is queued and no signal
  is emitted. The witness is the update with the name \<^verbatim>\<open>""\<close> of an entry whose name is
  \<^verbatim>\<open>NULL\<close>.
\<close>

theorem gsp_app_update_noop:
  assumes "gsp_str_equal nm (name (heap w ! app))"
      and "gsp_str_equal cmt (comment (heap w ! app))"
      and "gsp_str_equal ex (exec (heap w ! app))"
      and "del = delay (heap w ! app)"
  shows "gsp_app_update w app nm cmt ex del = w"
  using assms by (simp add: gsp_app_update_def)

theorem gsp_app_update_noop_witness:
  "name (heap ex_armed ! 0) = None \<and>
   gsp_str_equal (Some '''') (name (heap ex_armed ! 0)) \<and>
   gsp_str_equal None (comment (heap ex_armed ! 0)) \<and>
   gsp_str_equal (Some ''bar'') (exec (heap ex_armed ! 0)) \<and>
   gsp_app_update ex_armed 0 (Some '''') None (Some ''bar'') 0 = ex_armed"
proof -
  have h: "gsp_str_equal (Some '''') (name (heap ex_armed ! 0))"
          "gsp_str_equal None (comment (heap ex_armed ! 0))"
          "gsp_str_equal (Some ''bar'') (exec (heap ex_armed ! 0))"
          "(0::guint) = delay (heap ex_armed ! 0)"
    by (simp_all add: gsp_str_equal_def ex_defs)
  have n: "name (heap ex_armed ! 0) = None"
    by (simp add: ex_defs)
  from h n gsp_app_update_noop [OF h] show ?thesis by simp
qed

subsection \<open>Creation\<close>

text \<open>
  C3 (the free basename is unused in the registry and in the file system). The loop of
  \<^verbatim>\<open>_gsp_find_free_basename\<close> goes on only while the candidate is registered and its file
  exists, so it stops at a candidate that is registered when the file is not there yet.
  After a launcher for \<^verbatim>\<open>baz --x\<close> has been created (\<open>ex_created\<close>: registered as
  \<^verbatim>\<open>baz.desktop\<close>, its save still pending, no file written), the search for \<^verbatim>\<open>baz\<close>
  returns \<^verbatim>\<open>baz.desktop\<close> again, and a second launcher for \<^verbatim>\<open>baz --y\<close> gets the basename
  of the first.
\<close>

theorem gsp_find_free_basename_registered_name:
  "ex_created = gsp_app_create ex_world (Some ''Baz'') None (Some ''baz --x'') 0 \<and>
   gsp_app_manager_find_app_with_basename ex_created ''baz.desktop'' = Some 0 \<and>
   gsp_find_free_basename ex_created (Some ''baz'') = Some ''baz.desktop'' \<and>
   basename (heap (gsp_app_create ex_created (Some ''Baz 2'') None (Some ''baz --y'') 0) ! 0) =
     Some ''baz.desktop'' \<and>
   basename (heap (gsp_app_create ex_created (Some ''Baz 2'') None (Some ''baz --y'') 0) ! 1) =
     Some ''baz.desktop''"
proof -
  have nb: "\<not> gsm_util_text_is_blank (Some ''baz --y'')"
    by (simp add: gsm_util_text_is_blank_def g_ascii_isspace_def)
  have len: "length (heap ex_created) = 1" and old: "heap ex_created ! 0 = ex_created_app"
    by (simp_all add: ex_created_eq)
  have "gsp_app_manager_find_app_with_basename ex_created ''baz.desktop'' = Some 0"
    by (simp add: ex_created_eq ex_created_app_def gsp_app_manager_find_app_with_basename_def)
  moreover have "gsp_find_free_basename ex_created (Some ''baz'') = Some ''baz.desktop''"
    using find_free_ex_created by (simp add: argv0_def)
  moreover have
    "basename (heap (gsp_app_create ex_created (Some ''Baz 2'') None (Some ''baz --y'') 0) ! 0) =
       Some ''baz.desktop''"
    using gsp_app_create_basename(2) [OF nb parse_ex_created find_free_ex_created, of 0]
    by (simp add: len old ex_created_app_def)
  moreover have
    "basename (heap (gsp_app_create ex_created (Some ''Baz 2'') None (Some ''baz --y'') 0) ! 1) =
       Some ''baz.desktop''"
    using gsp_app_create_basename(1) [OF nb parse_ex_created find_free_ex_created]
    by (simp add: len)
  ultimately show ?thesis
    by (simp add: ex_created_def)
qed

text \<open>
  C10 (the name of a created entry). When \<^verbatim>\<open>gsp_app_create\<close> goes through (the exec is
  not blank, it tokenises, and a free basename is found), it adds one object, registers
  it, and the object's name is the exec when the name of the call is blank and the name of
  the call otherwise.
\<close>

theorem gsp_app_create_name:
  assumes "\<not> gsm_util_text_is_blank (Some e)"
      and "g_shell_parse_argv w e = Some argv"
      and "gsp_find_free_basename w (argv0 argv) = Some bn"
  shows "length (heap (gsp_app_create w nm cmt (Some e) del)) = Suc (length (heap w)) \<and>
         manager_apps (gsp_app_create w nm cmt (Some e) del) = length (heap w) # manager_apps w \<and>
         name (heap (gsp_app_create w nm cmt (Some e) del) ! length (heap w)) =
           (if gsm_util_text_is_blank nm then Some e else nm)"
  using assms
  by (simp add: gsp_app_create_def g_object_new_def gsp_app_update_description_def
      gsp_app_manager_add_def queue_save_keeps Let_def)

theorem gsp_app_create_name_witness:
  "\<not> gsm_util_text_is_blank (Some ''baz --x'') \<and>
   g_shell_parse_argv ex_world ''baz --x'' = Some [''baz''] \<and>
   gsp_find_free_basename ex_world (argv0 [''baz'']) = Some ''baz.desktop'' \<and>
   length (heap (gsp_app_create ex_world (Some '' '') None (Some ''baz --x'') 0)) = 1 \<and>
   name (heap (gsp_app_create ex_world (Some '' '') None (Some ''baz --x'') 0) ! 0) =
     Some ''baz --x'' \<and>
   name (heap (gsp_app_create ex_world (Some ''Baz'') None (Some ''baz --x'') 0) ! 0) =
     Some ''Baz''"
proof -
  have h: "\<not> gsm_util_text_is_blank (Some ''baz --x'')"
          "g_shell_parse_argv ex_world ''baz --x'' = Some [''baz'']"
          "gsp_find_free_basename ex_world (argv0 [''baz'']) = Some ''baz.desktop''"
    by (simp_all add: parse_ex_world find_free_ex_world gsm_util_text_is_blank_def
        g_ascii_isspace_def)
  have e: "length (heap ex_world) = 0"
    by (simp add: ex_defs)
  from h gsp_app_create_name [OF h, of "Some '' ''" None 0]
    gsp_app_create_name [OF h, of "Some ''Baz''" None 0]
  show ?thesis
    by (simp add: e gsm_util_text_is_blank_def g_ascii_isspace_def)
qed

subsection \<open>The dirty mask and the timer\<close>

text \<open>
  The pending saves of \<open>reach\<close> agree with the structs (\<open>all_ok\<close>) in every world the
  program reaches: each rule of \<open>reach\<close> carries the agreement over. A step that leaves
  the masks and handles alone keeps it; a step that works on one object has to establish
  it for that object.
\<close>

lemma all_ok_same:
  assumes "all_ok w st" and "length (heap w') = length (heap w)"
      and "\<And>q. q < length (heap w) \<Longrightarrow> save_mask (heap w' ! q) = save_mask (heap w ! q)"
      and "\<And>q. q < length (heap w) \<Longrightarrow> save_timeout (heap w' ! q) = save_timeout (heap w ! q)"
  shows "all_ok w' st"
  using assms unfolding all_ok_def pending_ok_def by simp

lemma all_ok_one:
  assumes "all_ok w st" and "length (heap w') = length (heap w)" and "app < length (heap w)"
      and "\<And>q. q < length (heap w) \<Longrightarrow> q \<noteq> app \<Longrightarrow> heap w' ! q = heap w ! q"
      and "pending_ok (heap w' ! app) s"
  shows "all_ok w' (st(app := s))"
  using assms unfolding all_ok_def by (simp add: nth_list_update_if)

lemma mask_or_nonzero [simp]:
  "x OR GSP_ASP_SAVE_MASK_HIDDEN \<noteq> 0" "x OR GSP_ASP_SAVE_MASK_NAME \<noteq> 0"
  "x OR GSP_ASP_SAVE_MASK_EXEC \<noteq> 0" "x OR GSP_ASP_SAVE_MASK_COMMENT \<noteq> 0"
  "x OR GSP_ASP_SAVE_MASK_DELAY \<noteq> 0" "x OR GSP_ASP_SAVE_MASK_ALL \<noteq> 0"
  by (simp_all add: mask_defs or_eq_0_iff)

lemma save_timeout_queue_save:
  "app < length (heap w) \<Longrightarrow> save_timeout (heap (gsp_app_queue_save w app) ! app) \<noteq> 0"
  by (simp add: gsp_app_queue_save_def g_timeout_add_seconds_def g_source_remove_def Let_def)

lemma heap_emit [simp]:
  "heap (gsp_app_emit_changed w app) = heap w" "heap (gsp_app_emit_removed w app) = heap w"
  by (simp_all add: gsp_app_emit_changed_def gsp_app_emit_removed_def)

lemma armed_after_queue_save:
  assumes "app < length (heap w)" and "save_mask (heap w ! app) \<noteq> 0"
  shows "pending_ok (heap (gsp_app_queue_save w app) ! app) Armed"
  using assms by (simp add: pending_ok_def save_timeout_queue_save queue_save_keeps)

lemma all_ok_set_hidden:
  assumes "all_ok w st"
  shows "all_ok (gsp_app_set_hidden w app hid)
           (if GSP_IS_APP w app \<and> hid \<noteq> hidden (heap w ! app) then st(app := Armed) else st)"
proof (cases "GSP_IS_APP w app \<and> hid \<noteq> hidden (heap w ! app)")
  case False
  then have "gsp_app_set_hidden w app hid = w"
    by (auto simp add: gsp_app_set_hidden_def)
  then show ?thesis
    unfolding if_not_P [OF False] using assms by simp
next
  case True
  then have len: "app < length (heap w)" by (simp add: GSP_IS_APP_def)
  let ?w1 = "priv_update w app
               (\<lambda>p. p\<lparr>hidden := hid, save_mask := save_mask p OR GSP_ASP_SAVE_MASK_HIDDEN\<rparr>)"
  have eq: "gsp_app_set_hidden w app hid = gsp_app_emit_changed (gsp_app_queue_save ?w1 app) app"
    using True by (simp add: gsp_app_set_hidden_def Let_def)
  have "all_ok (gsp_app_set_hidden w app hid) (st(app := Armed))"
  proof (rule all_ok_one [OF assms _ len])
    show "length (heap (gsp_app_set_hidden w app hid)) = length (heap w)"
      by (simp add: eq)
    show "heap (gsp_app_set_hidden w app hid) ! q = heap w ! q"
      if "q < length (heap w)" "q \<noteq> app" for q
      using that by (simp add: eq heap_queue_save_other)
    show "pending_ok (heap (gsp_app_set_hidden w app hid) ! app) Armed"
      unfolding eq heap_emit using len by (intro armed_after_queue_save) simp_all
  qed
  then show ?thesis
    unfolding if_P [OF True] .
qed

lemma all_ok_delete:
  assumes "all_ok w st"
  shows "all_ok (gsp_app_delete w app)
           (if GSP_IS_APP w app
            then st(app := (if user_only (heap w ! app) then Removed else Armed)) else st)"
proof (cases "GSP_IS_APP w app")
  case False
  then have "gsp_app_delete w app = w"
    by (simp add: gsp_app_delete_def)
  then show ?thesis
    unfolding if_not_P [OF False] using assms by simp
next
  case True
  then have len: "app < length (heap w)" by (simp add: GSP_IS_APP_def)
  have "all_ok (gsp_app_delete w app)
          (st(app := (if user_only (heap w ! app) then Removed else Armed)))"
  proof (cases "user_only (heap w ! app)")
    case False
    let ?w1 = "priv_update w app
                 (\<lambda>p. p\<lparr>hidden := True, save_mask := save_mask p OR GSP_ASP_SAVE_MASK_HIDDEN\<rparr>)"
    have cond: "\<not> (xdg_position (heap w ! app) = 0 \<and>
                    xdg_system_position (heap w ! app) = G_MAXUINT)"
      using False by (simp add: user_only_def)
    have eq: "gsp_app_delete w app = gsp_app_emit_changed (gsp_app_queue_save ?w1 app) app"
      unfolding gsp_app_delete_def Let_def if_not_P [OF cond] using True by simp
    have "all_ok (gsp_app_delete w app) (st(app := Armed))"
    proof (rule all_ok_one [OF assms _ len])
      show "length (heap (gsp_app_delete w app)) = length (heap w)"
        by (simp add: eq)
      show "heap (gsp_app_delete w app) ! q = heap w ! q"
        if "q < length (heap w)" "q \<noteq> app" for q
        using that by (simp add: eq heap_queue_save_other)
      show "pending_ok (heap (gsp_app_delete w app) ! app) Armed"
        unfolding eq heap_emit using len by (intro armed_after_queue_save) simp_all
    qed
    then show ?thesis
      unfolding if_not_P [OF False] .
  next
    case user: True
    then have cond: "xdg_position (heap w ! app) = 0 \<and>
                     xdg_system_position (heap w ! app) = G_MAXUINT"
      by (simp add: user_only_def)
    have del: "gsp_app_delete w app =
        (let w1 = (if save_timeout (heap w ! app) \<noteq> 0
                  then priv_update (g_source_remove w (save_timeout (heap w ! app))) app
                         (\<lambda>p. p\<lparr>save_timeout := 0\<rparr>)
                  else w);
            w2 = (if g_file_test_exists w1 (path (heap w1 ! app))
                  then g_remove w1 (path (heap w1 ! app)) else w1);
            w3 = priv_update w2 app
                   (\<lambda>p. p\<lparr>hidden := True, save_mask := save_mask p OR GSP_ASP_SAVE_MASK_HIDDEN\<rparr>)
        in gsp_app_emit_removed w3 app)"
      unfolding gsp_app_delete_def if_P [OF cond] using True by simp
    have "all_ok (gsp_app_delete w app) (st(app := Removed))"
    proof (rule all_ok_one [OF assms _ len])
      show "length (heap (gsp_app_delete w app)) = length (heap w)"
        by (simp add: del Let_def g_source_remove_def g_remove_def split: option.splits)
      show "heap (gsp_app_delete w app) ! q = heap w ! q"
        if "q < length (heap w)" "q \<noteq> app" for q
        using that
        by (simp add: del Let_def g_source_remove_def g_remove_def split: option.splits)
      show "pending_ok (heap (gsp_app_delete w app) ! app) Removed"
        using len
        by (simp add: del Let_def g_source_remove_def g_remove_def pending_ok_def
            split: option.splits)
    qed
    then show ?thesis
      unfolding if_P [OF user] .
  qed
  then show ?thesis
    unfolding if_P [OF True] .
qed

lemma heap_update_description:
  "length (heap (gsp_app_update_description w app)) = length (heap w)"
  "q \<noteq> app \<Longrightarrow> heap (gsp_app_update_description w app) ! q = heap w ! q"
  "app < length (heap w) \<Longrightarrow>
     heap (gsp_app_update_description w app) ! app =
       (heap w ! app)\<lparr>description := description (heap (gsp_app_update_description w app) ! app)\<rparr>"
  by (simp_all add: gsp_app_update_description_def Let_def)

lemma gsp_app_update_same:
  "\<not> gsp_app_update_changes w app nm cmt ex del \<Longrightarrow> gsp_app_update w app nm cmt ex del = w"
  by (simp add: gsp_app_update_changes_def gsp_app_update_def)

lemma gsp_app_update_frame:
  "length (heap (gsp_app_update w app nm cmt ex del)) = length (heap w)"
  "q \<noteq> app \<Longrightarrow> heap (gsp_app_update w app nm cmt ex del) ! q = heap w ! q"
  by (simp_all add: gsp_app_update_def Let_def split_def heap_update_description
      heap_queue_save_other)

lemma gsp_app_update_armed:
  assumes "app < length (heap w)" and "gsp_app_update_changes w app nm cmt ex del"
  shows "pending_ok (heap (gsp_app_update w app nm cmt ex del) ! app) Armed"
  using assms
  by (simp add: gsp_app_update_def gsp_app_update_changes_def GSP_IS_APP_def Let_def split_def
      pending_ok_def save_timeout_queue_save queue_save_keeps heap_update_description
      gsp_app_update_description_def)

lemma all_ok_update:
  assumes "all_ok w st"
  shows "all_ok (gsp_app_update w app nm cmt ex del)
           (if GSP_IS_APP w app \<and> gsp_app_update_changes w app nm cmt ex del
            then st(app := Armed) else st)"
proof (cases "GSP_IS_APP w app \<and> gsp_app_update_changes w app nm cmt ex del")
  case False
  then have "gsp_app_update w app nm cmt ex del = w"
    by (auto simp add: gsp_app_update_same) (simp add: gsp_app_update_def)
  then show ?thesis
    unfolding if_not_P [OF False] using assms by simp
next
  case True
  then have len: "app < length (heap w)" by (simp add: GSP_IS_APP_def)
  have "all_ok (gsp_app_update w app nm cmt ex del) (st(app := Armed))"
  proof (rule all_ok_one [OF assms _ len])
    show "length (heap (gsp_app_update w app nm cmt ex del)) = length (heap w)"
      by (rule gsp_app_update_frame)
    show "heap (gsp_app_update w app nm cmt ex del) ! q = heap w ! q"
      if "q < length (heap w)" "q \<noteq> app" for q
      using that by (simp add: gsp_app_update_frame)
    show "pending_ok (heap (gsp_app_update w app nm cmt ex del) ! app) Armed"
      using len True by (simp add: gsp_app_update_armed)
  qed
  then show ?thesis
    unfolding if_P [OF True] .
qed

text \<open>The flush, by its outcome.\<close>

lemma gsp_app_save_frame:
  "length (heap (gsp_app_save w app)) = length (heap w)"
  "q \<noteq> app \<Longrightarrow> heap (gsp_app_save w app) ! q = heap w ! q"
  by (simp_all add: gsp_app_save_def Let_def split_def gsp_app_save_done_success_def
      g_key_file_save_to_file_def g_remove_def gsp_ensure_user_autostart_dir_def
      split: option.splits)

lemma gsp_app_save_pending:
  assumes "app < length (heap w)"
  shows "save_mask (heap (gsp_app_save w app) ! app) =
           (if gsp_app_save_outcome w app = WriteFailed then save_mask (heap w ! app) else 0)"
    and "save_timeout (heap (gsp_app_save w app) ! app) =
           (if gsp_app_save_outcome w app = ShadowRemoved then save_timeout (heap w ! app) else 0)"
  using assms
  by (simp_all add: gsp_app_save_def gsp_app_save_outcome_def Let_def split_def
      gsp_app_save_done_success_def g_key_file_save_to_file_def g_remove_def
      gsp_ensure_user_autostart_dir_def split: option.splits)

lemma all_ok_timer:
  assumes "all_ok w st" and "GSP_IS_APP w app" and "st app = Armed"
  shows "all_ok (gsp_app_save w app) (st(app := after_timer (gsp_app_save_outcome w app)))"
proof -
  from assms(2) have len: "app < length (heap w)" by (simp add: GSP_IS_APP_def)
  from assms(1,3) len have armed: "save_mask (heap w ! app) \<noteq> 0" "save_timeout (heap w ! app) \<noteq> 0"
    by (auto simp add: all_ok_def pending_ok_def)
  show ?thesis
  proof (rule all_ok_one [OF assms(1) _ len])
    show "length (heap (gsp_app_save w app)) = length (heap w)"
      by (rule gsp_app_save_frame)
    show "heap (gsp_app_save w app) ! q = heap w ! q" if "q < length (heap w)" "q \<noteq> app" for q
      using that by (simp add: gsp_app_save_frame)
    show "pending_ok (heap (gsp_app_save w app) ! app) (after_timer (gsp_app_save_outcome w app))"
      using armed
      by (cases "gsp_app_save_outcome w app")
         (simp_all add: pending_ok_def gsp_app_save_pending [OF len] after_timer_def)
  qed
qed

lemma fst_g_key_file_save_to_file:
  "fst (g_key_file_save_to_file w kf p) =
     (case p of None \<Rightarrow> False | Some f \<Rightarrow> f \<notin> set (read_only w))"
  by (simp add: g_key_file_save_to_file_def split: option.splits)

lemma gsp_app_user_equal_system_timeout:
  "app < length (heap w) \<Longrightarrow>
   gsp_app_user_equal_system (priv_update w app (\<lambda>p. p\<lparr>save_timeout := t\<rparr>)) app =
   gsp_app_user_equal_system w app"
  by (simp add: gsp_app_user_equal_system_def g_key_file_load_from_file_def
      gsp_app_manager_get_dir_def Let_def cong: if_cong option.case_cong)

lemma gsp_app_save_outcome_timeout:
  "app < length (heap w) \<Longrightarrow>
   gsp_app_save_outcome (priv_update w app (\<lambda>p. p\<lparr>save_timeout := t\<rparr>)) app =
   gsp_app_save_outcome w app"
  by (simp add: gsp_app_save_outcome_def gsp_app_user_equal_system_timeout
      fst_g_key_file_save_to_file cong: option.case_cong)

lemma all_ok_dispose:
  assumes "all_ok w st"
  shows "all_ok (gsp_app_dispose w app)
           (if GSP_IS_APP w app \<and> save_timeout (heap w ! app) \<noteq> 0
            then st(app := after_dispose (gsp_app_save_outcome w app) (st app)) else st)"
proof (cases "GSP_IS_APP w app \<and> save_timeout (heap w ! app) \<noteq> 0")
  case False
  then have "gsp_app_dispose w app = w"
    by (auto simp add: gsp_app_dispose_def)
  then show ?thesis
    unfolding if_not_P [OF False] using assms by simp
next
  case True
  then have len: "app < length (heap w)" by (simp add: GSP_IS_APP_def)
  let ?w1 = "priv_update w app (\<lambda>p. p\<lparr>save_timeout := 0\<rparr>)"
  have eq: "gsp_app_dispose w app = gsp_app_save ?w1 app"
    using True by (simp add: gsp_app_dispose_def g_source_remove_def)
  have len1: "app < length (heap ?w1)" using len by simp
  have out: "gsp_app_save_outcome ?w1 app = gsp_app_save_outcome w app"
    using len by (rule gsp_app_save_outcome_timeout)
  from assms len True have st: "st app = Armed \<or> st app = Stale"
    and mask: "(save_mask (heap w ! app) \<noteq> 0) = (st app = Armed)"
    by (auto simp add: all_ok_def pending_ok_def)
  have "all_ok (gsp_app_dispose w app)
          (st(app := after_dispose (gsp_app_save_outcome w app) (st app)))"
  proof (rule all_ok_one [OF assms _ len])
    show "length (heap (gsp_app_dispose w app)) = length (heap w)"
      by (simp add: eq gsp_app_save_frame)
    show "heap (gsp_app_dispose w app) ! q = heap w ! q" if "q < length (heap w)" "q \<noteq> app" for q
      using that by (simp add: eq gsp_app_save_frame)
    show "pending_ok (heap (gsp_app_dispose w app) ! app)
            (after_dispose (gsp_app_save_outcome w app) (st app))"
      using st mask len
      by (cases "gsp_app_save_outcome w app")
         (auto simp add: eq pending_ok_def gsp_app_save_pending [OF len1] out after_dispose_def)
  qed
  then show ?thesis
    unfolding if_P [OF True] .
qed

text \<open>Loading: new objects have an empty mask and no handle, known ones keep theirs.\<close>

lemma all_ok_grow:
  assumes "all_ok w st" and "length (heap w) \<le> length (heap w')"
      and "\<And>q. q < length (heap w) \<Longrightarrow> save_mask (heap w' ! q) = save_mask (heap w ! q)"
      and "\<And>q. q < length (heap w) \<Longrightarrow> save_timeout (heap w' ! q) = save_timeout (heap w ! q)"
      and "\<And>q. length (heap w) \<le> q \<Longrightarrow> q < length (heap w') \<Longrightarrow>
             save_mask (heap w' ! q) = 0 \<and> save_timeout (heap w' ! q) = 0"
  shows "all_ok w' st"
  unfolding all_ok_def
proof (intro conjI allI impI)
  fix q assume q: "q < length (heap w')"
  show "pending_ok (heap w' ! q) (st q)"
  proof (cases "q < length (heap w)")
    case True
    with assms(1) have "pending_ok (heap w ! q) (st q)" by (simp add: all_ok_def)
    with assms(3,4) [OF True] show ?thesis by (simp add: pending_ok_def)
  next
    case False
    with assms(1) have "st q = Idle" by (simp add: all_ok_def)
    with assms(5) [of q] False q show ?thesis by (simp add: pending_ok_def)
  qed
next
  fix q assume "length (heap w') \<le> q"
  with assms(2) have "length (heap w) \<le> q" by simp
  with assms(1) show "st q = Idle" by (simp add: all_ok_def)
qed

lemma priv_update_length [simp]:
  "length (heap (priv_update w a f)) = length (heap w)"
  by simp

lemma priv_update_keeps_mask:
  "(\<And>p. save_mask (f p) = save_mask p) \<Longrightarrow>
   save_mask (heap (priv_update w a f) ! q) = save_mask (heap w ! q)"
  by (cases "a < length (heap w)"; cases "q = a") (simp_all add: list_update_beyond not_less)

lemma priv_update_keeps_timeout:
  "(\<And>p. save_timeout (f p) = save_timeout p) \<Longrightarrow>
   save_timeout (heap (priv_update w a f) ! q) = save_timeout (heap w ! q)"
  by (cases "a < length (heap w)"; cases "q = a") (simp_all add: list_update_beyond not_less)

lemma priv_update_same:
  "a < length (heap w) \<Longrightarrow> heap (priv_update w a f) ! a = f (heap w ! a)"
  by simp

lemma priv_update_other:
  "q \<noteq> a \<Longrightarrow> heap (priv_update w a f) ! q = heap w ! q"
  by simp

lemma update_description_keeps [simp]:
  "length (heap (gsp_app_update_description w a)) = length (heap w)"
  "save_mask (heap (gsp_app_update_description w a) ! q) = save_mask (heap w ! q)"
  "save_timeout (heap (gsp_app_update_description w a) ! q) = save_timeout (heap w ! q)"
  by (simp_all add: gsp_app_update_description_def Let_def priv_update_keeps_mask
      priv_update_keeps_timeout del: priv_update_fields(1))

lemma update_description_other:
  "q \<noteq> a \<Longrightarrow> heap (gsp_app_update_description w a) ! q = heap w ! q"
  by (simp add: gsp_app_update_description_def Let_def)

lemma gsp_app_new_load_new_goal:
  "case gsp_app_new_load w pth r bn None of
     Inl e \<Rightarrow> True
   | Inr (res, w') \<Rightarrow>
       (case res of
          None \<Rightarrow> w' = w
        | Some app \<Rightarrow>
            app = length (heap w) \<and> length (heap w') = Suc (length (heap w)) \<and>
            save_mask (heap w' ! length (heap w)) = 0 \<and>
            save_timeout (heap w' ! length (heap w)) = 0 \<and>
            (\<forall>q. q < length (heap w) \<longrightarrow> heap w' ! q = heap w ! q))"
  by (simp add: gsp_app_new_load_def Let_def g_object_new_def gsp_app_init_def
      priv_update_keeps_mask priv_update_keeps_timeout priv_update_other priv_update_same
      update_description_other nth_append
      del: priv_update_fields(1) split: option.splits)

lemma gsp_app_new_load_found_goal:
  "a < length (heap w) \<Longrightarrow>
   (case gsp_app_new_load w pth r bn (Some a) of
      Inl e \<Rightarrow> True
    | Inr (res, w') \<Rightarrow>
        length (heap w') = length (heap w) \<and>
        (\<forall>q. save_mask (heap w' ! q) = save_mask (heap w ! q)) \<and>
        (\<forall>q. q \<noteq> a \<longrightarrow> save_timeout (heap w' ! q) = save_timeout (heap w ! q)) \<and>
        (case res of
           None \<Rightarrow> w' = w
         | Some app \<Rightarrow> app = a \<and> save_timeout (heap w' ! a) = 0))"
  by (simp add: gsp_app_new_load_def Let_def
      priv_update_keeps_mask priv_update_keeps_timeout priv_update_other priv_update_same
      update_description_other
      del: priv_update_fields(1) split: option.splits)

lemma gsp_app_new_pending:
  assumes "gsp_app_new w pth r = Inr (res, w')"
  shows "length (heap w) \<le> length (heap w') \<and>
         (\<forall>q. q < length (heap w) \<longrightarrow>
              save_mask (heap w' ! q) = save_mask (heap w ! q) \<and>
              save_timeout (heap w' ! q) = save_timeout (heap w ! q)) \<and>
         (\<forall>q. length (heap w) \<le> q \<longrightarrow> q < length (heap w') \<longrightarrow>
              save_mask (heap w' ! q) = 0 \<and> save_timeout (heap w' ! q) = 0) \<and>
         (\<forall>app. res = Some app \<longrightarrow> app < length (heap w') \<and> save_timeout (heap w' ! app) = 0)"
proof (cases "gsp_app_manager_find_app_with_basename w (g_path_get_basename pth)")
  case None
  with assms have load: "gsp_app_new_load w pth r (g_path_get_basename pth) None = Inr (res, w')"
    by (simp add: gsp_app_new_def)
  show ?thesis
  proof (cases res)
    case res: None
    with gsp_app_new_load_new_goal [of w pth r "g_path_get_basename pth"] load
    have "w' = w" by simp
    with res show ?thesis by simp
  next
    case (Some app)
    with gsp_app_new_load_new_goal [of w pth r "g_path_get_basename pth"] load
    have "app = length (heap w)" "length (heap w') = Suc (length (heap w))"
         "save_mask (heap w' ! length (heap w)) = 0" "save_timeout (heap w' ! length (heap w)) = 0"
         "\<forall>q. q < length (heap w) \<longrightarrow> heap w' ! q = heap w ! q"
      by simp_all
    with Some show ?thesis
      by (auto simp add: less_Suc_eq_le)
  qed
next
  case (Some a)
  then have len: "a < length (heap w)"
    by (simp add: find_app_Some)
  show ?thesis
  proof (cases "xdg_position (heap w ! a) = r \<and> skip_next_monitor_event (heap w ! a)")
    case True
    with assms Some have "res = None"
      "w' = priv_update w a (\<lambda>p. p\<lparr>skip_next_monitor_event := False\<rparr>)"
      by (auto simp add: gsp_app_new_def)
    then show ?thesis
      by (simp add: priv_update_keeps_mask priv_update_keeps_timeout del: priv_update_fields(1))
  next
    case skip: False
    show ?thesis
    proof (cases "xdg_position (heap w ! a) < r \<or> save_timeout (heap w ! a) \<noteq> 0")
      case True
      with assms Some skip have "res = None"
        "w' = priv_update w a (\<lambda>p. p\<lparr>xdg_system_position := min r (xdg_system_position p)\<rparr>)"
        by (auto simp add: gsp_app_new_def)
      then show ?thesis
        by (simp add: priv_update_keeps_mask priv_update_keeps_timeout del: priv_update_fields(1))
    next
      case False
      then have zero: "save_timeout (heap w ! a) = 0" by simp
      from assms Some skip False
      have load: "gsp_app_new_load w pth r (g_path_get_basename pth) (Some a) = Inr (res, w')"
        by (auto simp add: gsp_app_new_def)
      with gsp_app_new_load_found_goal [OF len, of pth r "g_path_get_basename pth"]
      have facts: "length (heap w') = length (heap w)"
        "\<forall>q. save_mask (heap w' ! q) = save_mask (heap w ! q)"
        "\<forall>q. q \<noteq> a \<longrightarrow> save_timeout (heap w' ! q) = save_timeout (heap w ! q)"
        "case res of None \<Rightarrow> w' = w | Some app \<Rightarrow> app = a \<and> save_timeout (heap w' ! a) = 0"
        by simp_all
      have "save_timeout (heap w' ! a) = save_timeout (heap w ! a)"
        using facts(4) zero by (cases res) simp_all
      with facts(3) have "\<forall>q. save_timeout (heap w' ! q) = save_timeout (heap w ! q)"
        by metis
      with facts len zero show ?thesis
        by (cases res) simp_all
    qed
  qed
qed

lemma all_ok_new:
  assumes "all_ok w st" and "gsp_app_new w pth r = Inr (res, w')"
  shows "all_ok w' st"
  using gsp_app_new_pending [OF assms(2)]
  by (intro all_ok_grow [OF assms(1)]) simp_all

lemma all_ok_reload_at:
  assumes "all_ok w st" and "gsp_app_reload_at w app pth r = Inr w'"
  shows "all_ok w' st"
proof (cases "GSP_IS_APP w app")
  case False
  with assms show ?thesis by (simp add: gsp_app_reload_at_def)
next
  case True
  let ?w1 = "priv_update w app (\<lambda>p. p\<lparr>xdg_position := G_MAXUINT\<rparr>)"
  have ok1: "all_ok ?w1 st"
    by (rule all_ok_same [OF assms(1)])
       (simp_all add: priv_update_keeps_mask priv_update_keeps_timeout del: priv_update_fields(1))
  from assms(2) True obtain res where "gsp_app_new ?w1 pth r = Inr (res, w')"
    by (auto simp add: gsp_app_reload_at_def split: sum.splits)
  with ok1 show ?thesis by (rule all_ok_new)
qed

lemma heap_manager_add [simp]:
  "heap (gsp_app_manager_add w app) = heap w"
  "manager_apps (gsp_app_manager_add w app) = app # manager_apps w"
  by (simp_all add: gsp_app_manager_add_def)

lemma gsp_app_create_cases:
  "gsp_app_create w nm cmt ex del = w \<or>
   (length (heap (gsp_app_create w nm cmt ex del)) = Suc (length (heap w)) \<and>
    (\<forall>q. q < length (heap w) \<longrightarrow> heap (gsp_app_create w nm cmt ex del) ! q = heap w ! q) \<and>
    save_mask (heap (gsp_app_create w nm cmt ex del) ! length (heap w)) \<noteq> 0 \<and>
    save_timeout (heap (gsp_app_create w nm cmt ex del) ! length (heap w)) \<noteq> 0)"
  by (simp add: gsp_app_create_def Let_def g_object_new_def
      heap_queue_save_other queue_save_keeps save_timeout_queue_save
      priv_update_other priv_update_same update_description_other nth_append
      del: priv_update_fields(1) split: option.splits)

lemma all_ok_append:
  assumes "all_ok w st" and "length (heap w') = Suc (length (heap w))"
      and "\<forall>q. q < length (heap w) \<longrightarrow> heap w' ! q = heap w ! q"
      and "pending_ok (heap w' ! length (heap w)) s"
  shows "all_ok w' (st(length (heap w) := s))"
  using assms unfolding all_ok_def by (auto simp add: less_Suc_eq)

lemma all_ok_create:
  assumes "all_ok w st" and "w' = gsp_app_create w nm cmt ex del"
  shows "all_ok w' (if length (heap w') = Suc (length (heap w))
                    then st(length (heap w) := Armed) else st)"
proof (cases "length (heap w') = Suc (length (heap w))")
  case False
  with gsp_app_create_cases [of w nm cmt ex del] assms(2) have "w' = w" by auto
  then show ?thesis
    unfolding if_not_P [OF False] using assms(1) by simp
next
  case True
  with gsp_app_create_cases [of w nm cmt ex del] assms(2)
  have "\<forall>q. q < length (heap w) \<longrightarrow> heap w' ! q = heap w ! q"
    and "save_mask (heap w' ! length (heap w)) \<noteq> 0"
    and "save_timeout (heap w' ! length (heap w)) \<noteq> 0"
    by auto
  then have "all_ok w' (st(length (heap w) := Armed))"
    by (intro all_ok_append [OF assms(1) True]) (simp_all add: pending_ok_def)
  then show ?thesis
    unfolding if_P [OF True] .
qed

text \<open>Copying a desktop file: the three ways \<^verbatim>\<open>gsp_app_copy_desktop_file\<close> returns.\<close>

lemma heap_g_file_copy:
  "heap (snd (g_file_copy w u dst)) = heap w"
  by (simp add: g_file_copy_def split: option.splits)

lemma heap_g_remove [simp]:
  "heap (g_remove w f) = heap w"
  by (simp add: g_remove_def split: option.splits)

lemma all_ok_heap_eq:
  "all_ok w st \<Longrightarrow> heap w' = heap w \<Longrightarrow> all_ok w' st"
  by (simp add: all_ok_def)

lemma gsp_app_copy_desktop_file_cases:
  assumes "gsp_app_copy_desktop_file w uri = Inr (ok, w')"
  shows "(\<not> ok \<and> w' = w) \<or>
         (\<exists>w1 w2 pth. heap w1 = heap w \<and> gsp_app_new w1 pth 0 = Inr (None, w2) \<and>
            \<not> ok \<and> heap w' = heap w2) \<or>
         (\<exists>w1 w2 pth app. heap w1 = heap w \<and> gsp_app_new w1 pth 0 = Inr (Some app, w2) \<and> ok \<and>
            w' = gsp_app_manager_add
                   (if hidden (heap w2 ! app)
                    then gsp_app_queue_save
                           (priv_update w2 app
                              (\<lambda>p. p\<lparr>hidden := False,
                                     save_mask := save_mask p OR GSP_ASP_SAVE_MASK_HIDDEN\<rparr>)) app
                    else w2) app)"
proof (cases uri)
  case None
  with assms show ?thesis by (simp add: gsp_app_copy_desktop_file_def)
next
  case u: (Some u)
  show ?thesis
  proof (cases "uri_basename w u")
    case None
    with assms u show ?thesis by (simp add: gsp_app_copy_desktop_file_def)
  next
    case sb: (Some src_basename)
    show ?thesis
    proof (cases "gsp_find_free_basename w (Some src_basename)")
      case None
      with assms u sb show ?thesis by (simp add: gsp_app_copy_desktop_file_def)
    next
      case db: (Some dst_basename)
      define dst where "dst = g_build_filename [user_config_dir w, ''autostart'', dst_basename]"
      obtain copied w1 where cp: "g_file_copy w u dst = (copied, w1)"
        by (cases "g_file_copy w u dst")
      have hw1: "heap w1 = heap w"
        using heap_g_file_copy [of w u dst] by (simp add: cp)
      have unfold: "gsp_app_copy_desktop_file w uri =
          (if \<not> copied then Inr (False, w1)
           else
             (case gsp_app_new w1 dst 0 of
                Inl e \<Rightarrow> Inl e
              | Inr (None, w2) \<Rightarrow> Inr (False, g_remove w2 (Some dst))
              | Inr (Some app, w2) \<Rightarrow>
                  (let (changed, w3) =
                         (if hidden (heap w2 ! app)
                          then (True, priv_update w2 app
                                  (\<lambda>p. p\<lparr>hidden := False,
                                         save_mask :=
                                           save_mask p OR GSP_ASP_SAVE_MASK_HIDDEN\<rparr>))
                          else (False, w2));
                       w4 = (if changed then gsp_app_queue_save w3 app else w3)
                   in Inr (True, gsp_app_manager_add w4 app))))"
        by (simp add: gsp_app_copy_desktop_file_def u sb db dst_def [symmetric]
            gsp_ensure_user_autostart_dir_def cp Let_def)
      show ?thesis
      proof (cases copied)
        case False
        then have "w1 = w" using cp by (auto simp add: g_file_copy_def split: option.splits if_splits)
        with assms False show ?thesis by (simp add: unfold)
      next
        case True
        show ?thesis
        proof (cases "gsp_app_new w1 dst 0")
          case (Inl e)
          with assms True show ?thesis by (simp add: unfold)
        next
          case (Inr r)
          obtain res w2 where r: "r = (res, w2)" by (cases r)
          show ?thesis
          proof (cases res)
            case None
            with assms True Inr r have "\<not> ok" "heap w' = heap w2"
              by (auto simp add: unfold)
            with hw1 Inr r None show ?thesis by blast
          next
            case (Some app)
            with assms True Inr r have "ok"
              "w' = gsp_app_manager_add
                   (if hidden (heap w2 ! app)
                    then gsp_app_queue_save
                           (priv_update w2 app
                              (\<lambda>p. p\<lparr>hidden := False,
                                     save_mask := save_mask p OR GSP_ASP_SAVE_MASK_HIDDEN\<rparr>)) app
                    else w2) app"
              by (auto simp add: unfold Let_def split: if_splits)
            with hw1 Inr r Some show ?thesis by blast
          qed
        qed
      qed
    qed
  qed
qed

lemma all_ok_copy_desktop_file:
  assumes "all_ok w st" and "gsp_app_copy_desktop_file w uri = Inr (ok, w')"
  shows "all_ok w' (case manager_apps w' of
                      [] \<Rightarrow> st
                    | app # apps \<Rightarrow>
                        if ok \<and> save_timeout (heap w' ! app) \<noteq> 0 then st(app := Armed) else st)"
proof -
  have not_ok: "(case manager_apps w' of
               [] \<Rightarrow> st
             | app # apps \<Rightarrow>
                 if ok \<and> save_timeout (heap w' ! app) \<noteq> 0 then st(app := Armed) else st) = st"
    if "\<not> ok"
    using that by (simp split: list.splits)
  from gsp_app_copy_desktop_file_cases [OF assms(2)] show ?thesis
  proof (elim disjE exE conjE)
    assume n: "\<not> ok" and "w' = w"
    with assms(1) show ?thesis unfolding not_ok [OF n] by simp
  next
    fix w1 w2 pth
    assume h: "heap w1 = heap w" "gsp_app_new w1 pth 0 = Inr (None, w2)" "\<not> ok" "heap w' = heap w2"
    from assms(1) h(1) have "all_ok w1 st" by (rule all_ok_heap_eq)
    then have "all_ok w2 st" using h(2) by (rule all_ok_new)
    then have "all_ok w' st" using h(4) by (rule all_ok_heap_eq)
    then show ?thesis unfolding not_ok [OF h(3)] .
  next
    fix w1 w2 pth app
    assume h: "heap w1 = heap w" "gsp_app_new w1 pth 0 = Inr (Some app, w2)" "ok"
       "w' = gsp_app_manager_add
               (if hidden (heap w2 ! app)
                then gsp_app_queue_save
                       (priv_update w2 app
                          (\<lambda>p. p\<lparr>hidden := False,
                                 save_mask := save_mask p OR GSP_ASP_SAVE_MASK_HIDDEN\<rparr>)) app
                else w2) app"
    from assms(1) h(1) have "all_ok w1 st" by (rule all_ok_heap_eq)
    then have ok2: "all_ok w2 st" using h(2) by (rule all_ok_new)
    from gsp_app_new_pending [OF h(2)]
    have len: "app < length (heap w2)" and zero: "save_timeout (heap w2 ! app) = 0"
      by simp_all
    have apps: "manager_apps w' = app # manager_apps w2"
      by (simp add: h(4))
    show ?thesis
    proof (cases "hidden (heap w2 ! app)")
      case False
      then have "heap w' = heap w2" by (simp add: h(4))
      with ok2 zero show ?thesis
        by (simp add: apps all_ok_heap_eq)
    next
      case hid: True
      let ?w3 = "priv_update w2 app
                   (\<lambda>p. p\<lparr>hidden := False, save_mask := save_mask p OR GSP_ASP_SAVE_MASK_HIDDEN\<rparr>)"
      have hp: "heap w' = heap (gsp_app_queue_save ?w3 app)"
        using hid by (simp add: h(4))
      have armed: "pending_ok (heap (gsp_app_queue_save ?w3 app) ! app) Armed"
        using len by (intro armed_after_queue_save) simp_all
      have "all_ok w' (st(app := Armed))"
      proof (rule all_ok_one [OF ok2 _ len])
        show "length (heap w') = length (heap w2)"
          by (simp add: hp)
        show "heap w' ! q = heap w2 ! q" if "q < length (heap w2)" "q \<noteq> app" for q
          using that by (simp add: hp heap_queue_save_other)
        show "pending_ok (heap w' ! app) Armed"
          using armed by (simp add: hp)
      qed
      moreover from armed have "save_timeout (heap w' ! app) \<noteq> 0"
        by (simp add: hp pending_ok_def)
      ultimately show ?thesis
        using h(3) by (simp add: apps)
    qed
  qed
qed

lemma all_ok_set_xdg_system_position:
  assumes "all_ok w st"
  shows "all_ok (gsp_app_set_xdg_system_position w app position) st"
  by (rule all_ok_same [OF assms])
     (simp_all add: gsp_app_set_xdg_system_position_def priv_update_keeps_mask
        priv_update_keeps_timeout del: priv_update_fields(1))

text \<open>The pending save of every object agrees with its struct in every world reached.\<close>

lemma reach_all_ok: "reach w st \<Longrightarrow> all_ok w st"
proof (induction rule: reach.induct)
  case (init w)
  then show ?case by (simp add: all_ok_def)
next
  case (environment w st w')
  then show ?case by (simp add: all_ok_heap_eq)
next
  case (new w st pth xdgpos r w')
  then show ?case by (simp add: all_ok_new)
next
  case (reload_at w st app pth xdgpos w')
  then show ?case by (simp add: all_ok_reload_at)
next
  case (create w st w' nm cmt ex del)
  then show ?case by (simp only: all_ok_create)
next
  case (copy_desktop_file w st uri ok w')
  then show ?case by (simp only: all_ok_copy_desktop_file)
next
  case (set_xdg_system_position w st app position)
  then show ?case by (simp only: all_ok_set_xdg_system_position)
next
  case (set_hidden w st app hid)
  then show ?case by (simp only: all_ok_set_hidden)
next
  case (update w st app nm cmt ex del)
  then show ?case by (simp only: all_ok_update)
next
  case (delete w st app)
  then show ?case by (simp only: all_ok_delete)
next
  case (timer w st app)
  then show ?case by (simp only: all_ok_timer)
next
  case (dispose w st app)
  then show ?case by (simp only: all_ok_dispose)
qed

text \<open>Two runs: a launcher is created, and then deleted or flushed to a read-only directory.\<close>

lemma reach_ex_created: "reach ex_created ((\<lambda>app. Idle)(0 := Armed))"
proof -
  have init: "reach ex_world (\<lambda>app. Idle)"
    by (rule reach.init) (simp add: ex_world_def)
  have "reach ex_created
          (if length (heap ex_created) = Suc (length (heap ex_world))
           then (\<lambda>app. Idle)(length (heap ex_world) := Armed) else (\<lambda>app. Idle))"
    using init ex_created_def by (rule reach.create)
  moreover have "length (heap ex_created) = 1" "length (heap ex_world) = 0"
    by (simp_all add: ex_created_eq ex_world_def)
  ultimately show ?thesis by simp
qed

lemma delete_ex_created:
  "gsp_app_delete ex_created 0 =
     ex_world\<lparr>heap := [ex_created_app\<lparr>hidden := True, save_timeout := 0\<rparr>],
              manager_apps := [0], next_source_id := 2, signals := [(0, REMOVED)]\<rparr>"
  by (simp add: ex_created_eq ex_defs lib_defs app_defs mask_defs Let_def)

lemma save_ex_created_read_only:
  "gsp_app_save ex_created_read_only 0 =
     priv_update ex_created_read_only 0 (\<lambda>p. p\<lparr>save_timeout := 0\<rparr>)"
  "gsp_app_save_outcome ex_created_read_only 0 = WriteFailed"
  by (simp_all add: ex_created_read_only_def ex_created_eq ex_defs lib_defs gsp_app_save_write_path
      gsp_app_save_outcome_def gsp_app_user_equal_system_def)

text \<open>
  C2 as the claim states it fails: the mask can be non-empty with no save armed and no
  failed save waiting. A launcher is created (\<open>ex_created\<close>: all bits of the mask set, the
  timer armed) and deleted before the timer runs. The entry is in the user directory
  only, so \<^verbatim>\<open>gsp_app_delete\<close> removes the timer, clears the handle, and then sets the hidden
  bit of the mask "for extra safety" without queueing a save.
\<close>

theorem pending_save_invariant_counterexample:
  "reach (gsp_app_delete ex_created 0) ((\<lambda>app. Idle)(0 := Removed)) \<and>
   0 < length (heap (gsp_app_delete ex_created 0)) \<and>
   save_mask (heap (gsp_app_delete ex_created 0) ! 0) \<noteq> 0 \<and>
   save_timeout (heap (gsp_app_delete ex_created 0) ! 0) = 0 \<and>
   ((\<lambda>app. Idle)(0 := Removed)) 0 \<noteq> Failed"
proof -
  have "reach (gsp_app_delete ex_created 0)
          (if GSP_IS_APP ex_created 0
           then ((\<lambda>app. Idle)(0 := Armed))
                  (0 := (if user_only (heap ex_created ! 0) then Removed else Armed))
           else (\<lambda>app. Idle)(0 := Armed))"
    using reach_ex_created by (rule reach.delete)
  moreover have "GSP_IS_APP ex_created 0" "user_only (heap ex_created ! 0)"
    by (simp_all add: ex_created_eq ex_created_app_def GSP_IS_APP_def user_only_def)
  ultimately have "reach (gsp_app_delete ex_created 0) ((\<lambda>app. Idle)(0 := Removed))"
    by simp
  then show ?thesis
    by (simp add: delete_ex_created ex_created_app_def)
qed

text \<open>
  C2, amended (the dirty mask and the timer). In every world the program reaches, for
  every entry whose handle was not left behind by a flush that removed the user file, the
  mask is non-empty exactly when a save is armed (\<open>save_timeout\<close> is not 0), or the last
  flush could not write the file and the edits wait for the next one, or the entry was
  deleted while it was in the user directory only.
\<close>

theorem pending_save_invariant:
  assumes "reach w st" and "app < length (heap w)" and "st app \<noteq> Stale"
  shows "(save_mask (heap w ! app) \<noteq> 0) =
         (save_timeout (heap w ! app) \<noteq> 0 \<or> st app = Failed \<or> st app = Removed)"
proof -
  from reach_all_ok [OF assms(1)] assms(2) have "pending_ok (heap w ! app) (st app)"
    by (simp add: all_ok_def)
  with assms(3) show ?thesis
    by (cases "st app") (simp_all add: pending_ok_def)
qed

theorem pending_save_invariant_witness:
  "reach (gsp_app_save ex_created_read_only 0) ((\<lambda>app. Idle)(0 := Failed)) \<and>
   0 < length (heap (gsp_app_save ex_created_read_only 0)) \<and>
   ((\<lambda>app. Idle)(0 := Failed)) 0 \<noteq> Stale \<and>
   save_mask (heap (gsp_app_save ex_created_read_only 0) ! 0) \<noteq> 0 \<and>
   save_timeout (heap (gsp_app_save ex_created_read_only 0) ! 0) = 0"
proof -
  have "reach ex_created_read_only ((\<lambda>app. Idle)(0 := Armed))"
    using reach_ex_created by (rule reach.environment) (simp add: ex_created_read_only_def)
  moreover have "GSP_IS_APP ex_created_read_only 0"
    by (simp add: ex_created_read_only_def ex_created_eq GSP_IS_APP_def)
  moreover have "((\<lambda>app. Idle)(0 := Armed)) 0 = Armed" by simp
  ultimately have
    "reach (gsp_app_save ex_created_read_only 0)
       (((\<lambda>app. Idle)(0 := Armed))(0 := after_timer (gsp_app_save_outcome ex_created_read_only 0)))"
    by (rule reach.timer)
  then have r: "reach (gsp_app_save ex_created_read_only 0) ((\<lambda>app. Idle)(0 := Failed))"
    by (simp add: save_ex_created_read_only(2) after_timer_def)
  have l: "0 < length (heap (gsp_app_save ex_created_read_only 0))"
    unfolding save_ex_created_read_only(1)
    by (simp add: ex_created_read_only_def ex_created_eq)
  have s: "((\<lambda>app. Idle)(0 := Failed)) 0 \<noteq> Stale" by simp
  have t: "save_timeout (heap (gsp_app_save ex_created_read_only 0) ! 0) = 0"
    unfolding save_ex_created_read_only(1)
    by (simp add: ex_created_read_only_def ex_created_eq)
  from r l s t pending_save_invariant [OF r l s] show ?thesis
    by simp
qed

end
